theory Spec2Isabelle
  imports Main "HOL-Library.Word"
begin

section \<open>JavaScript strings\<close>

text \<open>
  A JavaScript string is a sequence of 16-bit code units. \<open>js\<close> turns a literal of the
  theory into such a sequence, so that \<open>js ''git''\<close> is the string \<^verbatim>\<open>'git'\<close>;
  \<open>slice(0, n)\<close> is \<open>take n\<close>, \<open>slice(n)\<close> is \<open>drop n\<close> and \<open>+\<close> is \<open>@\<close>.
\<close>

type_synonym jschar = "16 word"
type_synonym jsstring = "jschar list"

definition js :: "string \<Rightarrow> jsstring" where
  "js s = map (\<lambda>c. of_nat (of_char c)) s"

definition squote :: jschar where
  "squote = 0x27"

definition dquote :: jschar where
  "dquote = 0x22"

definition dash :: jschar where
  "dash = 0x2D"

text \<open>
  The class \<^verbatim>\<open>\s\<close> of ECMAScript: tab, vertical tab, form feed, space, no-break space,
  the byte order mark, the space separators of Unicode, and the line terminators.
\<close>

definition is_space :: "jschar \<Rightarrow> bool" where
  "is_space c \<longleftrightarrow>
     c = 0x09 \<or> c = 0x0A \<or> c = 0x0B \<or> c = 0x0C \<or> c = 0x0D \<or> c = 0x20 \<or> c = 0xA0 \<or>
     c = 0x1680 \<or> (0x2000 \<le> c \<and> c \<le> 0x200A) \<or> c = 0x2028 \<or> c = 0x2029 \<or>
     c = 0x202F \<or> c = 0x205F \<or> c = 0x3000 \<or> c = 0xFEFF"

text \<open>The characters that \<^verbatim>\<open>.\<close> does not match.\<close>

definition is_line_terminator :: "jschar \<Rightarrow> bool" where
  "is_line_terminator c \<longleftrightarrow> c = 0x0A \<or> c = 0x0D \<or> c = 0x2028 \<or> c = 0x2029"

section \<open>The regular expressions of the command tables\<close>

text \<open>
  The tables use three shapes of pattern: \<^verbatim>\<open>/^ls/\<close> (\<open>StartsWith\<close>),
  \<^verbatim>\<open>/^git$/\<close> (\<open>Whole\<close>; without the \<^verbatim>\<open>m\<close> flag \<^verbatim>\<open>$\<close> is the end of the input)
  and \<^verbatim>\<open>/^gc($|\s)/\<close> (\<open>WordThen\<close>). \<open>exec\<close> returns the matched text
  \<^verbatim>\<open>results[0]\<close>, or \<open>None\<close> for \<^verbatim>\<open>null\<close>.
\<close>

datatype regex = StartsWith jsstring | Whole jsstring | WordThen jsstring

fun exec :: "regex \<Rightarrow> jsstring \<Rightarrow> jsstring option" where
  "exec (StartsWith w) str = (if take (length w) str = w then Some w else None)"
| "exec (Whole w) str = (if str = w then Some w else None)"
| "exec (WordThen w) str =
     (if take (length w) str = w then
        (case drop (length w) str of
           [] \<Rightarrow> Some w
         | c # _ \<Rightarrow> if is_space c then Some (w @ [c]) else None)
      else None)"

section \<open>Thrown values and the command's attributes\<close>

datatype thrown =
    CommandResult jsstring
  | CommandProcessError jsstring
  | GitError jsstring
  | Error jsstring

text \<open>
  The three places that throw a \<^verbatim>\<open>CommandProcessError\<close>, with the message each builds:
  the test for \<^verbatim>\<open>git\<close> in \<^verbatim>\<open>parse\<close>, the test of the method in \<^verbatim>\<open>gitParse\<close>
  (with \<^verbatim>\<open>fullCommand\<close>) and the lookup of an option in \<^verbatim>\<open>explodeAndSet\<close> (with
  \<^verbatim>\<open>part\<close>).
\<close>

definition UnsupportedTopLevel :: thrown where
  "UnsupportedTopLevel = CommandProcessError (js ''Git commands only, sorry!'')"

definition UnsupportedMethod :: "jsstring \<Rightarrow> thrown" where
  "UnsupportedMethod fullCommand =
     CommandProcessError (js ''Sorry, this demo does not support that git command: '' @ fullCommand)"

definition UnsupportedOption :: "jsstring \<Rightarrow> thrown" where
  "UnsupportedOption part =
     CommandProcessError (js ''The option '' @ [dquote] @ part @ [dquote] @ js '' is not supported'')"

text \<open>
  A value of an option map is \<^verbatim>\<open>false\<close> (supported, not given) or the array of the
  arguments that follow the option. An object literal is the list of its properties in
  the order they are written, and \<open>map_of\<close> reads a property of its own; a missing one
  reads as \<^verbatim>\<open>undefined\<close>, here \<open>None\<close>. No name that every object inherits starts with
  \<^verbatim>\<open>-\<close>, so for an option this is the whole lookup.
\<close>

datatype optval = JsFalse | Args "jsstring list"

type_synonym optionMap = "(jsstring \<times> optval) list"

text \<open>
  The attributes of a \<^verbatim>\<open>Command\<close> that parsing reads or writes, and \<open>events\<close>, the
  notifications sent to the global \<^verbatim>\<open>events\<close> object. \<^verbatim>\<open>null\<close> is \<open>None\<close>;
  \<open>method'\<close> is the attribute \<^verbatim>\<open>method\<close>.
  The attributes \<^verbatim>\<open>status\<close>, \<^verbatim>\<open>result\<close>, \<^verbatim>\<open>err\<close> and \<^verbatim>\<open>createTime\<close> are written
  through the change handler, \<^verbatim>\<open>toResult\<close> and the clock, which are outside this file.
\<close>

record command =
  error :: "thrown option"
  generalArgs :: "jsstring list"
  supportedMap :: optionMap
  options :: "jsstring option"
  method' :: "jsstring option"
  rawStr :: "jsstring option"
  events :: "jsstring list"

definition defaults :: command where
  "defaults = \<lparr>error = None, generalArgs = [], supportedMap = [], options = None,
     method' = None, rawStr = None, events = []\<rparr>"

text \<open>\<^verbatim>\<open>!x\<close> for a value that is \<^verbatim>\<open>null\<close> or a string.\<close>

fun falsy :: "jsstring option \<Rightarrow> bool" where
  "falsy None = True"
| "falsy (Some s) = (s = [])"

text \<open>
  A method of the model takes the command and returns the command as it has left it,
  together with the value it has thrown, if any.
\<close>

type_synonym action = "command \<Rightarrow> thrown option \<times> command"

section \<open>The tables\<close>

definition getShortcutMap :: "(jsstring \<times> regex) list" where
  "getShortcutMap =
    [(js ''git commit'', WordThen (js ''gc'')),
     (js ''git add'', WordThen (js ''ga'')),
     (js ''git checkout'', WordThen (js ''gchk'')),
     (js ''git rebase'', WordThen (js ''gr'')),
     (js ''git branch'', WordThen (js ''gb''))]"

definition getRegexMap :: "(jsstring \<times> regex) list" where
  "getRegexMap =
    [(js ''commit'', WordThen (js ''commit'')),
     (js ''add'', WordThen (js ''add'')),
     (js ''checkout'', WordThen (js ''checkout'')),
     (js ''rebase'', WordThen (js ''rebase'')),
     (js ''reset'', WordThen (js ''reset'')),
     (js ''branch'', WordThen (js ''branch'')),
     (js ''revert'', WordThen (js ''revert'')),
     (js ''merge'', WordThen (js ''merge''))]"

text \<open>
  The message of the \<^verbatim>\<open>git\<close> entry: the literal with its line continuations removed,
  after \<^verbatim>\<open>_.escape\<close> has replaced the angle brackets.
\<close>

definition gitUsage :: jsstring where
  "gitUsage =
     js ''            Git Version '' @ [0x0A] @ js '' '' @
     js ''            PCOTTLE.1.0 '' @
     js ''            Usage: '' @ [0x0A] @ js '' '' @
     js ''              git &lt;command&gt; [&lt;args&gt;] '' @
     js ''          ''"

definition getSandboxCommands :: "(regex \<times> action) list" where
  "getSandboxCommands =
    [(StartsWith (js ''ls''),
        \<lambda>c. (Some (CommandResult (js ''DontWorryAboutFilesInThisDemo.txt'')), c)),
     (StartsWith (js ''cd''),
        \<lambda>c. (Some (CommandResult
          (js ''Directory Changed to '' @ [squote] @
           js ''/directories/dont/matter/in/this/demo'' @ [squote])), c)),
     (Whole (js ''git''),
        \<lambda>c. (Some (CommandResult gitUsage), c)),
     (Whole (js ''refresh''),
        \<lambda>c. (Some (CommandResult (js ''Refreshing tree...'')),
             c\<lparr>events := events c @ [js ''refreshTree'']\<rparr>))]"

definition getMasterOptionMap :: "(jsstring \<times> optionMap) list" where
  "getMasterOptionMap =
    [(js ''commit'', [(js ''--amend'', JsFalse), (js ''-a'', JsFalse), (js ''-am'', JsFalse)]),
     (js ''add'', []),
     (js ''branch'', [(js ''-d'', JsFalse), (js ''-D'', JsFalse)]),
     (js ''checkout'', [(js ''-b'', JsFalse)]),
     (js ''reset'', [(js ''--hard'', JsFalse), (js ''--soft'', JsFalse)]),
     (js ''merge'', []),
     (js ''rebase'', []),
     (js ''revert'', [])]"

text \<open>
  \<^verbatim>\<open>getMasterOptionMap()[method]\<close>. The lookup also finds the names that every object
  inherits from \<^verbatim>\<open>Object.prototype\<close> (those of ECMAScript and its Annex B are listed).
  Their values are functions and objects, not
  \<^verbatim>\<open>undefined\<close>, and none has a property that starts with \<^verbatim>\<open>-\<close>: as an option map
  such a value has no entry.
\<close>

definition inheritedNames :: "jsstring list" where
  "inheritedNames =
    [js ''constructor'', js ''toString'', js ''toLocaleString'', js ''valueOf'',
     js ''hasOwnProperty'', js ''isPrototypeOf'', js ''propertyIsEnumerable'',
     js ''__proto__'', js ''__defineGetter__'', js ''__defineSetter__'',
     js ''__lookupGetter__'', js ''__lookupSetter__'']"

definition optionMapOf :: "jsstring \<Rightarrow> optionMap option" where
  "optionMapOf m =
     (case map_of getMasterOptionMap m of
        Some sm \<Rightarrow> Some sm
      | None \<Rightarrow> if m \<in> set inheritedNames then Some [] else None)"

section \<open>OptionParser\<close>

text \<open>
  The fields of an \<^verbatim>\<open>OptionParser\<close>. Three of them have the names of attributes of the
  command and carry the prefix \<open>p_\<close> here.
\<close>

record optionParser =
  p_method :: jsstring
  rawOptions :: jsstring
  p_supportedMap :: optionMap
  p_generalArgs :: "jsstring list"

text \<open>
  \<^verbatim>\<open>rawOptions.match(/('.*?'|".*?"|\S+)/g) || []\<close>. At each position the
  alternatives are tried in their order: a quote, then characters other than line
  terminators up to the first quote of the same kind; or a run of characters that are
  not white space, as long as it goes. Where none matches, the search moves on by one
  character.
\<close>

definition quoted :: "jschar \<Rightarrow> jsstring \<Rightarrow> (jsstring \<times> jsstring) option" where
  "quoted q str =
     (case str of
        [] \<Rightarrow> None
      | c # cs \<Rightarrow>
          if c = q then
            (case dropWhile (\<lambda>x. x \<noteq> q \<and> \<not> is_line_terminator x) cs of
               [] \<Rightarrow> None
             | d # rest \<Rightarrow>
                 if d = q
                 then Some (q # takeWhile (\<lambda>x. x \<noteq> q \<and> \<not> is_line_terminator x) cs @ [q], rest)
                 else None)
          else None)"

definition nonSpaces :: "jsstring \<Rightarrow> (jsstring \<times> jsstring) option" where
  "nonSpaces str =
     (case str of
        [] \<Rightarrow> None
      | c # cs \<Rightarrow>
          if is_space c then None
          else Some (takeWhile (\<lambda>x. \<not> is_space x) str, dropWhile (\<lambda>x. \<not> is_space x) str))"

definition matchAt :: "jsstring \<Rightarrow> (jsstring \<times> jsstring) option" where
  "matchAt str =
     (case quoted squote str of
        Some m \<Rightarrow> Some m
      | None \<Rightarrow>
          (case quoted dquote str of
             Some m \<Rightarrow> Some m
           | None \<Rightarrow> nonSpaces str))"

lemma quoted_shorter: "quoted q str = Some (tok, rest) \<Longrightarrow> length rest < length str"
proof -
  assume h: "quoted q str = Some (tok, rest)"
  then obtain c cs where str: "str = c # cs"
    by (cases str) (auto simp: quoted_def)
  from h str obtain d where "dropWhile (\<lambda>x. x \<noteq> q \<and> \<not> is_line_terminator x) cs = d # rest"
    by (auto simp: quoted_def split: if_splits list.splits)
  then have "length (d # rest) \<le> length cs"
    by (metis length_dropWhile_le)
  with str show ?thesis by simp
qed

lemma nonSpaces_shorter: "nonSpaces str = Some (tok, rest) \<Longrightarrow> length rest < length str"
proof -
  assume h: "nonSpaces str = Some (tok, rest)"
  then obtain c cs where str: "str = c # cs" and c: "\<not> is_space c"
    by (cases str) (auto simp: nonSpaces_def split: if_splits)
  from h str c have "rest = dropWhile (\<lambda>x. \<not> is_space x) cs"
    by (simp add: nonSpaces_def)
  then have "length rest \<le> length cs"
    by (simp add: length_dropWhile_le)
  with str show ?thesis by simp
qed

lemma matchAt_shorter: "matchAt str = Some (tok, rest) \<Longrightarrow> length rest < length str"
  by (auto simp: matchAt_def split: option.splits dest: quoted_shorter nonSpaces_shorter)

function matchAll :: "jsstring \<Rightarrow> jsstring list" where
  "matchAll str =
     (case str of
        [] \<Rightarrow> []
      | c # cs \<Rightarrow>
          (case matchAt str of
             Some (tok, rest) \<Rightarrow> tok # matchAll rest
           | None \<Rightarrow> matchAll cs))"
  by pat_completeness auto
termination
  by (relation "measure length") (auto dest: matchAt_shorter)

text \<open>\<^verbatim>\<open>part.replace(/['"]/g, '')\<close>\<close>

definition stripQuotes :: "jsstring \<Rightarrow> jsstring" where
  "stripQuotes part = filter (\<lambda>c. c \<noteq> squote \<and> c \<noteq> dquote) part"

definition exploded :: "jsstring \<Rightarrow> jsstring list" where
  "exploded raw = map stripQuotes (matchAll raw)"

text \<open>\<^verbatim>\<open>part.slice(0,1) == '-'\<close>\<close>

definition isOption :: "jsstring \<Rightarrow> bool" where
  "isOption part \<longleftrightarrow> take 1 part = [dash]"

text \<open>\<^verbatim>\<open>map[key] = value\<close>: a property that exists keeps its place, a new one is added last.\<close>

fun setProp :: "jsstring \<Rightarrow> optval \<Rightarrow> optionMap \<Rightarrow> optionMap" where
  "setProp k v [] = [(k, v)]"
| "setProp k v ((k', v') # m) = (if k' = k then (k, v) # m else (k', v') # setProp k v m)"

text \<open>
  The \<^verbatim>\<open>for\<close> loop of \<^verbatim>\<open>explodeAndSet\<close>, on the tokens from index \<open>i\<close> on: \<open>part\<close> is
  \<^verbatim>\<open>exploded[i]\<close> and \<open>rest\<close> the tokens behind it. The inner \<^verbatim>\<open>while\<close> takes the
  tokens up to the next option as \<open>optionArgs\<close> and moves \<open>i\<close>, so that the loop goes on
  at that option.
\<close>

function forLoop :: "jsstring list \<Rightarrow> optionParser \<Rightarrow> thrown + optionParser" where
  "forLoop [] p = Inr p"
| "forLoop (part # rest) p =
     (if isOption part then
        (if map_of (p_supportedMap p) part = None then
           Inl (UnsupportedOption part)
         else
           (let optionArgs = takeWhile (\<lambda>t. \<not> isOption t) rest
            in forLoop (dropWhile (\<lambda>t. \<not> isOption t) rest)
                 (p\<lparr>p_supportedMap := setProp part (Args optionArgs) (p_supportedMap p)\<rparr>)))
      else forLoop rest (p\<lparr>p_generalArgs := p_generalArgs p @ [part]\<rparr>))"
  by pat_completeness auto
termination
  by (relation "measure (\<lambda>(ts, p). length ts)") (auto simp: length_dropWhile_le less_Suc_eq_le)

definition explodeAndSet :: "optionParser \<Rightarrow> thrown + optionParser" where
  "explodeAndSet p = forLoop (exploded (rawOptions p)) p"

definition OptionParser :: "jsstring \<Rightarrow> jsstring \<Rightarrow> thrown + optionParser" where
  "OptionParser m opts =
     (case optionMapOf m of
        None \<Rightarrow> Inl (Error (js ''No option map for '' @ m))
      | Some sm \<Rightarrow>
          explodeAndSet \<lparr>p_method = m, rawOptions = opts, p_supportedMap = sm, p_generalArgs = []\<rparr>)"

section \<open>Command\<close>

text \<open>
  \<^verbatim>\<open>validateAtInit\<close> also stamps \<^verbatim>\<open>createTime\<close> and registers the change handler; neither
  is an attribute of the record. A \<^verbatim>\<open>TypeError\<close> of the runtime (a property of
  \<^verbatim>\<open>null\<close>) is a plain \<open>Error\<close>.
\<close>

definition validateAtInit :: action where
  "validateAtInit c =
     (if falsy (rawStr c) then (Some (Error (js ''Give me a string!'')), c) else (None, c))"

text \<open>The callbacks of the three \<^verbatim>\<open>_.each\<close> loops, run over the entries in their order.\<close>

fun eachSandbox :: "(regex \<times> action) list \<Rightarrow> jsstring \<Rightarrow> action" where
  "eachSandbox [] str c = (None, c)"
| "eachSandbox ((regex, act) # rest) str c =
     (if exec regex str \<noteq> None then
        (case act c of
           (Some t, c') \<Rightarrow> (Some t, c')
         | (None, c') \<Rightarrow> eachSandbox rest str c')
      else eachSandbox rest str c)"

fun eachShortcut :: "(jsstring \<times> regex) list \<Rightarrow> jsstring \<Rightarrow> jsstring" where
  "eachShortcut [] str = str"
| "eachShortcut ((m, regex) # rest) str =
     (case exec regex str of
        Some r0 \<Rightarrow> eachShortcut rest (m @ js '' '' @ drop (length r0) str)
      | None \<Rightarrow> eachShortcut rest str)"

fun eachRegex :: "(jsstring \<times> regex) list \<Rightarrow> jsstring \<Rightarrow> command \<Rightarrow> command" where
  "eachRegex [] fullCommand c = c"
| "eachRegex ((m, regex) # rest) fullCommand c =
     (if exec regex fullCommand \<noteq> None then
        eachRegex rest fullCommand
          (c\<lparr>options := Some (drop (length m + 1) fullCommand), method' := Some m\<rparr>)
      else eachRegex rest fullCommand c)"

text \<open>
  The second half of \<^verbatim>\<open>gitParse\<close>, from the test of the \<^verbatim>\<open>method\<close> attribute on.
  \<^verbatim>\<open>fullCommand\<close> is the text of the message. With \<^verbatim>\<open>options\<close> at \<^verbatim>\<open>null\<close> the
  constructor of the parser still looks the option map up first, and \<^verbatim>\<open>match\<close> on
  \<^verbatim>\<open>null\<close> throws behind that.
\<close>

definition parseOffOptions :: "jsstring \<Rightarrow> action" where
  "parseOffOptions fullCommand c =
     (case method' c of
        None \<Rightarrow> (Some (UnsupportedMethod fullCommand), c)
      | Some m \<Rightarrow>
          if m = [] then (Some (UnsupportedMethod fullCommand), c)
          else
            (case options c of
               None \<Rightarrow>
                 (case optionMapOf m of
                    None \<Rightarrow> (Some (Error (js ''No option map for '' @ m)), c)
                  | Some sm \<Rightarrow> (Some (Error (js ''TypeError'')), c))
             | Some opts \<Rightarrow>
                 (case OptionParser m opts of
                    Inl err \<Rightarrow> (Some err, c)
                  | Inr optionParser \<Rightarrow>
                      (None, c\<lparr>generalArgs := p_generalArgs optionParser,
                                supportedMap := p_supportedMap optionParser\<rparr>))))"

definition gitParse :: "jsstring \<Rightarrow> action" where
  "gitParse str c =
     (let fullCommand = drop (length (js ''git '')) str
      in parseOffOptions fullCommand (eachRegex getRegexMap fullCommand c))"

definition parse :: action where
  "parse c =
     (case rawStr c of
        None \<Rightarrow> (Some (Error (js ''TypeError'')), c)
      | Some str \<Rightarrow>
          if length str = 0 then (Some (CommandResult []), c)
          else
            (case eachSandbox getSandboxCommands str c of
               (Some t, c') \<Rightarrow> (Some t, c')
             | (None, c') \<Rightarrow>
                 (let str' = eachShortcut getShortcutMap str
                  in if take 3 str' \<noteq> js ''git''
                     then (Some UnsupportedTopLevel, c')
                     else gitParse str' c')))"

text \<open>The \<^verbatim>\<open>catch\<close> clause of \<^verbatim>\<open>parseOrCatch\<close>.\<close>

fun catchClause :: "thrown \<Rightarrow> action" where
  "catchClause (CommandProcessError msg) c = (None, c\<lparr>error := Some (CommandProcessError msg)\<rparr>)"
| "catchClause (GitError msg) c = (None, c\<lparr>error := Some (GitError msg)\<rparr>)"
| "catchClause (CommandResult msg) c = (None, c\<lparr>error := Some (CommandResult msg)\<rparr>)"
| "catchClause (Error msg) c = (Some (Error msg), c)"

definition parseOrCatch :: action where
  "parseOrCatch c =
     (case parse c of
        (None, c') \<Rightarrow> (None, c')
      | (Some err, c') \<Rightarrow> catchClause err c')"

definition initialize :: action where
  "initialize c =
     (case validateAtInit c of
        (Some err, c') \<Rightarrow> (Some err, c')
      | (None, c') \<Rightarrow> parseOrCatch c')"

text \<open>\<^verbatim>\<open>new Command({rawStr: raw})\<close>\<close>

definition newCommand :: "jsstring \<Rightarrow> thrown option \<times> command" where
  "newCommand raw = initialize (defaults\<lparr>rawStr := Some raw\<rparr>)"

section \<open>Facts about the loops and the tables\<close>

lemma js_git: "js ''git'' = [0x67, 0x69, 0x74]"
  by (simp add: js_def)

lemma sandbox_scan:
  "eachSandbox getSandboxCommands str c =
    (if exec (StartsWith (js ''ls'')) str \<noteq> None
       then (Some (CommandResult (js ''DontWorryAboutFilesInThisDemo.txt'')), c)
     else if exec (StartsWith (js ''cd'')) str \<noteq> None
       then (Some (CommandResult
          (js ''Directory Changed to '' @ [squote] @
           js ''/directories/dont/matter/in/this/demo'' @ [squote])), c)
     else if exec (Whole (js ''git'')) str \<noteq> None then (Some (CommandResult gitUsage), c)
     else if exec (Whole (js ''refresh'')) str \<noteq> None
       then (Some (CommandResult (js ''Refreshing tree...'')),
             c\<lparr>events := events c @ [js ''refreshTree'']\<rparr>)
     else (None, c))"
  by (simp add: getSandboxCommands_def)

lemma git_prefix:
  assumes "take 3 str = js ''git''"
  obtains rest where "str = 0x67 # 0x69 # 0x74 # rest"
proof -
  have "str = take 3 str @ drop 3 str" by simp
  with assms have "str = 0x67 # 0x69 # 0x74 # drop 3 str"
    by (simp add: js_git)
  then show ?thesis by (rule that)
qed

lemma shortcut_git:
  "take 3 str = js ''git'' \<Longrightarrow> eachShortcut getShortcutMap str = str"
  by (erule git_prefix) (simp add: getShortcutMap_def js_def)

lemma parse_git:
  assumes "rawStr c = Some str" and "take 3 str = js ''git''" and "str \<noteq> js ''git''"
  shows "parse c = gitParse str c"
proof -
  from assms(2) obtain rest where str: "str = 0x67 # 0x69 # 0x74 # rest"
    by (rule git_prefix)
  have scan: "eachSandbox getSandboxCommands str c = (None, c)"
    using assms(3) unfolding sandbox_scan by (simp add: str js_def)
  show ?thesis
    using assms(1,2) scan by (simp add: parse_def shortcut_git str)
qed

lemma forLoop_option:
  "isOption part \<Longrightarrow> map_of (p_supportedMap p) part = Some v \<Longrightarrow>
   forLoop (part # rest) p =
     forLoop (dropWhile (\<lambda>t. \<not> isOption t) rest)
       (p\<lparr>p_supportedMap :=
          setProp part (Args (takeWhile (\<lambda>t. \<not> isOption t) rest)) (p_supportedMap p)\<rparr>)"
  by simp

lemma forLoop_supported:
  "isOption part \<Longrightarrow> forLoop (part # rest) p = Inr p' \<Longrightarrow>
   \<exists>v. map_of (p_supportedMap p) part = Some v"
  by (cases "map_of (p_supportedMap p) part") auto

lemma map_of_setProp:
  "map_of (setProp k v m) k' = (if k' = k then Some v else map_of m k')"
  by (induction m) auto

lemma keys_setProp:
  "map_of m k \<noteq> None \<Longrightarrow> map fst (setProp k v m) = map fst m"
  by (induction m) auto

lemma option_in_dropWhile:
  "(f \<in> set (dropWhile (\<lambda>t. \<not> isOption t) ts) \<and> isOption f) = (f \<in> set ts \<and> isOption f)"
  by (induction ts) auto

lemma forLoop_keys:
  "forLoop ts p = Inr p' \<Longrightarrow> map fst (p_supportedMap p') = map fst (p_supportedMap p)"
proof (induction ts p rule: forLoop.induct)
  case (1 p)
  then show ?case by simp
next
  case (2 part rest p)
  show ?case
  proof (cases "isOption part")
    case True
    with "2.prems" obtain v where sup: "map_of (p_supportedMap p) part = Some v"
      by (blast dest: forLoop_supported)
    with True "2.prems" "2.IH"(1) show ?thesis
      by (simp add: keys_setProp)
  next
    case False
    with "2.prems" "2.IH"(2) show ?thesis by simp
  qed
qed

lemma forLoop_given:
  "forLoop ts p = Inr p' \<Longrightarrow>
   (\<exists>a. map_of (p_supportedMap p') f = Some (Args a)) =
   ((\<exists>a. map_of (p_supportedMap p) f = Some (Args a)) \<or> (f \<in> set ts \<and> isOption f))"
proof (induction ts p rule: forLoop.induct)
  case (1 p)
  then show ?case by simp
next
  case (2 part rest p)
  show ?case
  proof (cases "isOption part")
    case True
    with "2.prems" obtain v where sup: "map_of (p_supportedMap p) part = Some v"
      by (blast dest: forLoop_supported)
    let ?p = "p\<lparr>p_supportedMap :=
      setProp part (Args (takeWhile (\<lambda>t. \<not> isOption t) rest)) (p_supportedMap p)\<rparr>"
    from "2.prems"(1) have run: "forLoop (dropWhile (\<lambda>t. \<not> isOption t) rest) ?p = Inr p'"
      by (simp only: forLoop_option [OF True sup])
    from "2.IH"(1) [OF True _ refl run] sup
    have "(\<exists>a. map_of (p_supportedMap p') f = Some (Args a)) =
      ((\<exists>a. map_of (p_supportedMap ?p) f = Some (Args a)) \<or>
       (f \<in> set (dropWhile (\<lambda>t. \<not> isOption t) rest) \<and> isOption f))"
      by simp
    also have "\<dots> = ((\<exists>a. map_of (p_supportedMap ?p) f = Some (Args a)) \<or>
       (f \<in> set rest \<and> isOption f))"
      by (simp only: option_in_dropWhile)
    finally show ?thesis using True
      by (auto simp: map_of_setProp)
  next
    case False
    with "2.prems" "2.IH"(2) show ?thesis by auto
  qed
qed

lemma forLoop_generalArgs:
  "forLoop ts p = Inr p' \<Longrightarrow>
   \<exists>gs. p_generalArgs p' = p_generalArgs p @ gs \<and> set gs \<subseteq> set ts \<and> (\<forall>g \<in> set gs. \<not> isOption g)"
proof (induction ts p rule: forLoop.induct)
  case (1 p)
  then show ?case by simp
next
  case (2 part rest p)
  show ?case
  proof (cases "isOption part")
    case True
    with "2.prems" obtain v where sup: "map_of (p_supportedMap p) part = Some v"
      by (blast dest: forLoop_supported)
    let ?p = "p\<lparr>p_supportedMap :=
      setProp part (Args (takeWhile (\<lambda>t. \<not> isOption t) rest)) (p_supportedMap p)\<rparr>"
    from "2.prems"(1) have run: "forLoop (dropWhile (\<lambda>t. \<not> isOption t) rest) ?p = Inr p'"
      by (simp only: forLoop_option [OF True sup])
    from "2.IH"(1) [OF True _ refl run] sup
    obtain gs where gs: "p_generalArgs p' = p_generalArgs p @ gs"
      "set gs \<subseteq> set (dropWhile (\<lambda>t. \<not> isOption t) rest)" "\<forall>g \<in> set gs. \<not> isOption g"
      by auto
    from gs(2) have "set gs \<subseteq> set (part # rest)"
      by (auto dest: set_dropWhileD)
    with gs(1,3) show ?thesis by blast
  next
    case False
    from False "2.prems" have run: "forLoop rest (p\<lparr>p_generalArgs := p_generalArgs p @ [part]\<rparr>) = Inr p'"
      by simp
    from "2.IH"(2) [OF False run]
    obtain gs where gs: "p_generalArgs p' = (p_generalArgs p @ [part]) @ gs"
      "set gs \<subseteq> set rest" "\<forall>g \<in> set gs. \<not> isOption g"
      by auto
    have "p_generalArgs p' = p_generalArgs p @ (part # gs)" using gs(1) by simp
    moreover have "set (part # gs) \<subseteq> set (part # rest)" using gs(2) by auto
    moreover have "\<forall>g \<in> set (part # gs). \<not> isOption g" using gs(3) False by simp
    ultimately show ?thesis by blast
  qed
qed

lemma forLoop_unsupported:
  "isOption tok \<Longrightarrow> map_of (p_supportedMap p) tok = None \<Longrightarrow>
   \<forall>t \<in> set pre. isOption t \<longrightarrow> map_of (p_supportedMap p) t \<noteq> None \<Longrightarrow>
   forLoop (pre @ tok # post) p =
     Inl (UnsupportedOption tok)"
proof (induction pre arbitrary: p rule: length_induct)
  case (1 pre)
  show ?case
  proof (cases pre)
    case Nil
    with "1.prems" show ?thesis by simp
  next
    case (Cons part rest)
    show ?thesis
    proof (cases "isOption part")
      case True
      with "1.prems"(3) Cons obtain v where sup: "map_of (p_supportedMap p) part = Some v"
        by auto
      let ?p = "p\<lparr>p_supportedMap :=
        setProp part (Args (takeWhile (\<lambda>t. \<not> isOption t) (rest @ tok # post))) (p_supportedMap p)\<rparr>"
      let ?pre = "dropWhile (\<lambda>t. \<not> isOption t) rest"
      have len: "length ?pre < length pre"
        using Cons length_dropWhile_le [of "\<lambda>t. \<not> isOption t" rest] by simp
      have unsup: "map_of (p_supportedMap ?p) tok = None"
        using "1.prems"(2) sup by (auto simp: map_of_setProp)
      have pre_ok: "\<forall>t \<in> set ?pre. isOption t \<longrightarrow> map_of (p_supportedMap ?p) t \<noteq> None"
        using "1.prems"(3) Cons by (auto simp: map_of_setProp dest: set_dropWhileD)
      have drop: "dropWhile (\<lambda>t. \<not> isOption t) (rest @ tok # post) = ?pre @ tok # post"
        using "1.prems"(1) by (simp add: dropWhile_append3)
      from "1.IH" len "1.prems"(1) unsup pre_ok
      have "forLoop (?pre @ tok # post) ?p = Inl (UnsupportedOption tok)"
        by blast
      with Cons drop show ?thesis
        by (simp add: forLoop_option [OF True sup] del: forLoop.simps)
    next
      case False
      let ?p = "p\<lparr>p_generalArgs := p_generalArgs p @ [part]\<rparr>"
      from "1.IH" Cons "1.prems"
      have "forLoop (rest @ tok # post) ?p = Inl (UnsupportedOption tok)"
        by simp
      with False Cons show ?thesis by simp
    qed
  qed
qed


lemma forLoop_Inl:
  "forLoop ts p = Inl e \<Longrightarrow> \<exists>tok \<in> set ts. isOption tok \<and> e = UnsupportedOption tok"
proof (induction ts p rule: forLoop.induct)
  case (1 p)
  then show ?case by simp
next
  case (2 part rest p)
  show ?case
  proof (cases "isOption part")
    case opt: True
    show ?thesis
    proof (cases "map_of (p_supportedMap p) part")
      case None
      with opt "2.prems" show ?thesis by auto
    next
      case (Some v)
      let ?p = "p\<lparr>p_supportedMap :=
        setProp part (Args (takeWhile (\<lambda>t. \<not> isOption t) rest)) (p_supportedMap p)\<rparr>"
      from "2.prems" have run: "forLoop (dropWhile (\<lambda>t. \<not> isOption t) rest) ?p = Inl e"
        by (simp only: forLoop_option [OF opt Some])
      from "2.IH"(1) [OF opt _ refl run] Some
      obtain tok where "tok \<in> set (dropWhile (\<lambda>t. \<not> isOption t) rest)"
        "isOption tok" "e = UnsupportedOption tok"
        by auto
      then show ?thesis by (auto dest: set_dropWhileD)
    qed
  next
    case False
    with "2.prems" "2.IH"(2) show ?thesis by auto
  qed
qed

lemma optionMapOf_own: "map_of getMasterOptionMap m = Some sm \<Longrightarrow> optionMapOf m = Some sm"
  by (simp add: optionMapOf_def)

lemma optionMapOf_None:
  "optionMapOf m = None \<longleftrightarrow> map_of getMasterOptionMap m = None \<and> m \<notin> set inheritedNames"
  by (simp add: optionMapOf_def split: option.splits)

lemma OptionParser_Inl:
  "OptionParser m opts = Inl e \<Longrightarrow>
   (map_of getMasterOptionMap m = None \<and> m \<notin> set inheritedNames \<and>
    e = Error (js ''No option map for '' @ m)) \<or>
   (\<exists>tok. e = UnsupportedOption tok)"
  by (auto simp: OptionParser_def explodeAndSet_def optionMapOf_None
      split: option.splits dest: forLoop_Inl)

lemma eachRegex_none:
  "\<forall>(m, r) \<in> set tbl. exec r fc = None \<Longrightarrow> eachRegex tbl fc c = c"
  by (induction tbl arbitrary: c) auto

lemma eachRegex_some:
  "\<exists>(m, r) \<in> set tbl. exec r fc \<noteq> None \<Longrightarrow>
   \<exists>(m, r) \<in> set tbl. exec r fc \<noteq> None \<and>
     eachRegex tbl fc c = c\<lparr>options := Some (drop (length m + 1) fc), method' := Some m\<rparr>"
proof (induction tbl arbitrary: c)
  case Nil
  then show ?case by simp
next
  case (Cons e tbl)
  obtain m r where e: "e = (m, r)" by (cases e)
  show ?case
  proof (cases "\<exists>(m, r) \<in> set tbl. exec r fc \<noteq> None")
    case True
    let ?c = "if exec r fc \<noteq> None
      then c\<lparr>options := Some (drop (length m + 1) fc), method' := Some m\<rparr> else c"
    from Cons.IH [OF True, of ?c]
    obtain m' r' where "(m', r') \<in> set tbl" "exec r' fc \<noteq> None"
      "eachRegex tbl fc ?c = ?c\<lparr>options := Some (drop (length m' + 1) fc), method' := Some m'\<rparr>"
      by auto
    then show ?thesis
      unfolding e by (intro bexI [of _ "(m', r')"]) auto
  next
    case False
    then have none: "\<forall>(m, r) \<in> set tbl. exec r fc = None" by auto
    with Cons.prems e have "exec r fc \<noteq> None" by auto
    with none show ?thesis
      unfolding e by (intro bexI [of _ "(m, r)"]) (auto simp: eachRegex_none)
  qed
qed

lemma WordThen_iff:
  "exec (WordThen w) fc \<noteq> None \<longleftrightarrow> fc = w \<or> (\<exists>c rest. fc = w @ c # rest \<and> is_space c)"
proof
  assume m: "exec (WordThen w) fc \<noteq> None"
  then have pre: "take (length w) fc = w"
    by (auto split: if_splits)
  have fc: "fc = w @ drop (length w) fc"
    using pre append_take_drop_id [of "length w" fc] by simp
  show "fc = w \<or> (\<exists>c rest. fc = w @ c # rest \<and> is_space c)"
  proof (cases "drop (length w) fc")
    case Nil
    with fc show ?thesis by simp
  next
    case (Cons c rest)
    with m pre have "is_space c" by (auto split: if_splits)
    with fc Cons show ?thesis by metis
  qed
next
  assume "fc = w \<or> (\<exists>c rest. fc = w @ c # rest \<and> is_space c)"
  then show "exec (WordThen w) fc \<noteq> None" by auto
qed

lemma WordThen_exclusive:
  assumes "exec (WordThen w1) fc \<noteq> None" and "exec (WordThen w2) fc \<noteq> None"
    and "\<forall>x \<in> set w1. \<not> is_space x" and "\<forall>x \<in> set w2. \<not> is_space x"
  shows "w1 = w2"
proof -
  have less: "\<not> length v < length w"
    if v: "fc = v \<or> (\<exists>c rest. fc = v @ c # rest \<and> is_space c)"
      and w: "fc = w \<or> (\<exists>c rest. fc = w @ c # rest \<and> is_space c)"
      and nw: "\<forall>x \<in> set w. \<not> is_space x" for v w
  proof
    assume l: "length v < length w"
    from w obtain tl where tl: "fc = w @ tl" by auto
    from v l tl obtain c rest where c: "fc = v @ c # rest" "is_space c"
      by auto
    from c(1) tl l have "w ! length v = c"
      by (metis nth_append nth_append_length)
    with l nw c(2) show False
      by (metis nth_mem)
  qed
  from assms have v1: "fc = w1 \<or> (\<exists>c rest. fc = w1 @ c # rest \<and> is_space c)"
    and v2: "fc = w2 \<or> (\<exists>c rest. fc = w2 @ c # rest \<and> is_space c)"
    by (simp_all only: WordThen_iff)
  from less [OF v1 v2 assms(4)] less [OF v2 v1 assms(3)]
  have "length w1 = length w2" by simp
  moreover from v1 obtain t1 where "fc = w1 @ t1" by auto
  moreover from v2 obtain t2 where "fc = w2 @ t2" by auto
  ultimately show ?thesis by (metis append_eq_append_conv)
qed


lemma regex_entry:
  "(m, r) \<in> set getRegexMap \<Longrightarrow>
   r = WordThen m \<and> (\<forall>x \<in> set m. \<not> is_space x) \<and> m \<noteq> [] \<and>
   map_of getMasterOptionMap m \<noteq> None"
  by (auto simp: getRegexMap_def getMasterOptionMap_def js_def is_space_def)

lemma regex_names:
  "m \<in> fst ` set getRegexMap \<longleftrightarrow> (m, WordThen m) \<in> set getRegexMap"
  by (auto simp: getRegexMap_def)

lemma eachRegex_select:
  assumes "(m, r) \<in> set getRegexMap" and "exec r fc \<noteq> None"
  shows "eachRegex getRegexMap fc c =
    c\<lparr>options := Some (drop (length m + 1) fc), method' := Some m\<rparr>"
proof -
  from assms have "\<exists>(m, r) \<in> set getRegexMap. exec r fc \<noteq> None" by auto
  from eachRegex_some [OF this, of c]
  obtain m' r' where sel: "(m', r') \<in> set getRegexMap" "exec r' fc \<noteq> None"
    "eachRegex getRegexMap fc c =
      c\<lparr>options := Some (drop (length m' + 1) fc), method' := Some m'\<rparr>"
    by auto
  from assms sel(1,2) have "m' = m"
    by (metis regex_entry WordThen_exclusive)
  with sel(3) show ?thesis by simp
qed

lemma eachRegex_method:
  assumes "method' c = None" and "m \<in> fst ` set getRegexMap"
  shows "method' (eachRegex getRegexMap fc c) = Some m \<longleftrightarrow>
    fc = m \<or> (\<exists>s rest. fc = m @ s # rest \<and> is_space s)"
proof
  assume sel: "method' (eachRegex getRegexMap fc c) = Some m"
  with assms(1) have "\<not> (\<forall>(m, r) \<in> set getRegexMap. exec r fc = None)"
    by (metis eachRegex_none option.distinct(1))
  then obtain m' r' where e: "(m', r') \<in> set getRegexMap" "exec r' fc \<noteq> None"
    by auto
  from eachRegex_select [OF e, of c] sel have "m' = m" by simp
  with e regex_entry [OF e(1)] have "exec (WordThen m) fc \<noteq> None" by simp
  then show "fc = m \<or> (\<exists>s rest. fc = m @ s # rest \<and> is_space s)"
    by (simp only: WordThen_iff)
next
  assume "fc = m \<or> (\<exists>s rest. fc = m @ s # rest \<and> is_space s)"
  then have "exec (WordThen m) fc \<noteq> None"
    by (simp only: WordThen_iff)
  moreover from assms(2) have "(m, WordThen m) \<in> set getRegexMap"
    by (simp only: regex_names)
  ultimately show "method' (eachRegex getRegexMap fc c) = Some m"
    by (simp add: eachRegex_select)
qed

lemma gitParse_unknown:
  assumes "method' c = None" and "\<forall>(m, r) \<in> set getRegexMap. exec r (drop 4 str) = None"
  shows "gitParse str c = (Some (UnsupportedMethod (drop 4 str)), c)"
proof -
  have "length (js ''git '') = 4" by (simp add: js_def)
  with assms show ?thesis
    by (simp add: gitParse_def parseOffOptions_def eachRegex_none)
qed

lemma gitParse_known:
  assumes "(m, r) \<in> set getRegexMap" and "exec r (drop 4 str) \<noteq> None"
  shows "gitParse str c =
    (case OptionParser m (drop (length m + 1) (drop 4 str)) of
       Inl err \<Rightarrow>
         (Some err, c\<lparr>options := Some (drop (length m + 1) (drop 4 str)), method' := Some m\<rparr>)
     | Inr p \<Rightarrow>
         (None, c\<lparr>options := Some (drop (length m + 1) (drop 4 str)), method' := Some m,
                   generalArgs := p_generalArgs p, supportedMap := p_supportedMap p\<rparr>))"
proof -
  have "length (js ''git '') = 4" by (simp add: js_def)
  moreover from regex_entry [OF assms(1)] have "m \<noteq> []" by simp
  ultimately show ?thesis
    using eachRegex_select [OF assms, of c]
    by (simp add: gitParse_def parseOffOptions_def split: sum.splits)
qed

lemma gitParse_outcome:
  assumes "method' c = None"
  shows "(\<exists>c'. gitParse str c = (None, c') \<and> error c' = error c) \<or>
    gitParse str c = (Some (UnsupportedMethod (drop 4 str)), c) \<or>
    (\<exists>tok c'. gitParse str c = (Some (UnsupportedOption tok), c'))"
proof (cases "\<forall>(m, r) \<in> set getRegexMap. exec r (drop 4 str) = None")
  case True
  with assms show ?thesis by (simp add: gitParse_unknown)
next
  case False
  then obtain m r where e: "(m, r) \<in> set getRegexMap" "exec r (drop 4 str) \<noteq> None"
    by auto
  show ?thesis
  proof (cases "OptionParser m (drop (length m + 1) (drop 4 str))")
    case (Inl err)
    with regex_entry [OF e(1)] obtain tok where "err = UnsupportedOption tok"
      by (auto dest: OptionParser_Inl)
    with Inl have "gitParse str c =
      (Some (UnsupportedOption tok),
       c\<lparr>options := Some (drop (length m + 1) (drop 4 str)), method' := Some m\<rparr>)"
      by (simp add: gitParse_known [OF e])
    then show ?thesis by blast
  next
    case (Inr p)
    then show ?thesis
      by (simp add: gitParse_known [OF e])
  qed
qed

lemma parse_outcome:
  assumes "rawStr c = Some str" and "method' c = None"
  shows "(\<exists>c'. parse c = (None, c') \<and> error c' = error c) \<or>
    (\<exists>msg c'. parse c = (Some (CommandResult msg), c')) \<or>
    (\<exists>msg c'. parse c = (Some (CommandProcessError msg), c'))"
proof (cases "length str = 0")
  case True
  with assms(1) show ?thesis by (simp add: parse_def)
next
  case nonempty: False
  show ?thesis
  proof (cases "eachSandbox getSandboxCommands str c = (None, c)")
    case False
    then have "\<exists>msg c'. eachSandbox getSandboxCommands str c = (Some (CommandResult msg), c')"
      unfolding sandbox_scan by (simp split: if_splits)
    with assms(1) nonempty show ?thesis
      by (auto simp: parse_def)
  next
    case scan: True
    let ?str = "eachShortcut getShortcutMap str"
    show ?thesis
    proof (cases "take 3 ?str = js ''git''")
      case False
      with assms(1) nonempty scan show ?thesis
        by (simp add: parse_def UnsupportedTopLevel_def)
    next
      case True
      with assms(1) nonempty scan have "parse c = gitParse ?str c"
        by (simp add: parse_def)
      with gitParse_outcome [OF assms(2), of ?str] show ?thesis
        by (auto simp: UnsupportedMethod_def UnsupportedOption_def)
    qed
  qed
qed

lemma newCommand_constructs:
  assumes "raw \<noteq> []"
  shows "\<exists>c. newCommand raw = (None, c)"
proof -
  let ?c = "defaults\<lparr>rawStr := Some raw\<rparr>"
  have "rawStr ?c = Some raw" "method' ?c = None"
    by (simp_all add: defaults_def)
  from parse_outcome [OF this]
  have "\<exists>c. parseOrCatch ?c = (None, c)"
    by (auto simp: parseOrCatch_def)
  with assms show ?thesis
    by (simp add: newCommand_def initialize_def validateAtInit_def)
qed

lemma master_entry:
  "map_of getMasterOptionMap m = Some sm \<Longrightarrow>
   (m, WordThen m) \<in> set getRegexMap \<and> (\<forall>(k, v) \<in> set sm. v = JsFalse \<and> isOption k)"
  by (auto simp: getMasterOptionMap_def getRegexMap_def isOption_def dash_def js_def
      split: if_splits)

lemma OptionParser_Inr:
  "map_of getMasterOptionMap m = Some sm \<Longrightarrow> OptionParser m opts = Inr p \<Longrightarrow>
   forLoop (exploded opts)
     \<lparr>p_method = m, rawOptions = opts, p_supportedMap = sm, p_generalArgs = []\<rparr> = Inr p"
  by (simp add: OptionParser_def explodeAndSet_def optionMapOf_own)

lemma gitParse_success:
  assumes "method' c = None" and "gitParse str c = (None, c')"
  shows "\<exists>m r p. (m, r) \<in> set getRegexMap \<and>
    OptionParser m (drop (length m + 1) (drop 4 str)) = Inr p \<and>
    c' = c\<lparr>options := Some (drop (length m + 1) (drop 4 str)), method' := Some m,
            generalArgs := p_generalArgs p, supportedMap := p_supportedMap p\<rparr>"
proof (cases "\<forall>(m, r) \<in> set getRegexMap. exec r (drop 4 str) = None")
  case True
  with assms show ?thesis by (simp add: gitParse_unknown)
next
  case False
  then obtain m r where e: "(m, r) \<in> set getRegexMap" "exec r (drop 4 str) \<noteq> None"
    by auto
  show ?thesis
  proof (cases "OptionParser m (drop (length m + 1) (drop 4 str))")
    case (Inl err)
    with assms(2) show ?thesis by (simp add: gitParse_known [OF e])
  next
    case (Inr p)
    with assms(2) have "c' = c\<lparr>options := Some (drop (length m + 1) (drop 4 str)),
      method' := Some m, generalArgs := p_generalArgs p, supportedMap := p_supportedMap p\<rparr>"
      by (simp add: gitParse_known [OF e])
    with e(1) Inr show ?thesis by blast
  qed
qed

lemma parse_success:
  assumes "rawStr c = Some str" and "parse c = (None, c')"
  shows "\<exists>str'. gitParse str' c = (None, c')"
proof -
  from assms have nonempty: "length str \<noteq> 0"
    by (auto simp: parse_def split: if_splits)
  have scan: "eachSandbox getSandboxCommands str c = (None, c)"
  proof (rule ccontr)
    assume "eachSandbox getSandboxCommands str c \<noteq> (None, c)"
    then have "\<exists>msg c'. eachSandbox getSandboxCommands str c = (Some (CommandResult msg), c')"
      unfolding sandbox_scan by (simp split: if_splits)
    with assms nonempty show False by (auto simp: parse_def)
  qed
  from assms nonempty scan have "gitParse (eachShortcut getShortcutMap str) c = (None, c')"
    by (simp add: parse_def Let_def split: if_splits)
  then show ?thesis ..
qed

lemma newCommand_success:
  assumes "newCommand raw = (None, c)" and "error c = None"
  shows "parse (defaults\<lparr>rawStr := Some raw\<rparr>) = (None, c)"
proof -
  let ?c = "defaults\<lparr>rawStr := Some raw\<rparr>"
  from assms(1) have run: "parseOrCatch ?c = (None, c)"
    by (simp add: newCommand_def initialize_def validateAtInit_def split: if_splits)
  obtain t c' where p: "parse ?c = (t, c')" by (cases "parse ?c")
  show ?thesis
  proof (cases t)
    case None
    with run p show ?thesis by (simp add: parseOrCatch_def)
  next
    case (Some err)
    with run p have "catchClause err c' = (None, c)" by (simp add: parseOrCatch_def)
    with assms(2) show ?thesis by (cases err) auto
  qed
qed

lemma eachSandbox_first:
  assumes "\<forall>(r, a) \<in> set pre. exec r str = None" and "exec regex str \<noteq> None"
    and "act c = (Some t, c')"
  shows "eachSandbox (pre @ (regex, act) # rest) str c = (Some t, c')"
  using assms by (induction pre) auto

lemma sandbox_exclusive:
  "length (filter (\<lambda>(r, a). exec r str \<noteq> None) getSandboxCommands) \<le> 1"
  by (auto simp: getSandboxCommands_def js_def)

lemma sandbox_wins:
  assumes "rawStr c = Some str" and "\<exists>(r, a) \<in> set getSandboxCommands. exec r str \<noteq> None"
  shows "\<exists>msg c'. parse c = (Some (CommandResult msg), c')"
proof (cases "length str = 0")
  case True
  with assms(1) show ?thesis by (simp add: parse_def)
next
  case False
  from assms(2)
  have "exec (StartsWith (js ''ls'')) str \<noteq> None \<or> exec (StartsWith (js ''cd'')) str \<noteq> None \<or>
    exec (Whole (js ''git'')) str \<noteq> None \<or> exec (Whole (js ''refresh'')) str \<noteq> None"
    by (simp add: getSandboxCommands_def del: exec.simps)
  then have "\<exists>msg c'. eachSandbox getSandboxCommands str c = (Some (CommandResult msg), c')"
    unfolding sandbox_scan by (auto simp del: exec.simps)
  with assms(1) False show ?thesis
    by (auto simp: parse_def)
qed

lemma thrown_distinct:
  "UnsupportedMethod fc \<noteq> UnsupportedTopLevel" "UnsupportedOption tok \<noteq> UnsupportedTopLevel"
  by (simp_all add: UnsupportedMethod_def UnsupportedOption_def UnsupportedTopLevel_def js_def)

lemma eachRegex_error: "error (eachRegex tbl fullCommand c) = error c"
  by (induction tbl arbitrary: c) auto

lemma parseOffOptions_error: "parseOffOptions fullCommand c = (t, c') \<Longrightarrow> error c' = error c"
  by (auto simp: parseOffOptions_def split: option.splits if_splits sum.splits)

lemma gitParse_error: "gitParse str c = (t, c') \<Longrightarrow> error c' = error c"
  by (auto simp: gitParse_def Let_def eachRegex_error dest: parseOffOptions_error)

lemma sandbox_error: "eachSandbox getSandboxCommands str c = (t, c') \<Longrightarrow> error c' = error c"
  unfolding sandbox_scan by (auto split: if_splits simp del: exec.simps)

lemma parse_error: "parse c = (t, c') \<Longrightarrow> error c' = error c"
proof (cases "rawStr c")
  case None
  then show "parse c = (t, c') \<Longrightarrow> error c' = error c"
    by (auto simp: parse_def)
next
  case (Some str)
  assume p: "parse c = (t, c')"
  obtain t1 c1 where scan: "eachSandbox getSandboxCommands str c = (t1, c1)"
    by (cases "eachSandbox getSandboxCommands str c")
  from sandbox_error [OF scan] have c1: "error c1 = error c" .
  show "error c' = error c"
  proof (cases "length str = 0")
    case True
    with Some p show ?thesis by (auto simp: parse_def)
  next
    case False
    show ?thesis
    proof (cases t1)
      case (Some t')
      with \<open>rawStr c = Some str\<close> False scan p c1 show ?thesis
        by (auto simp: parse_def)
    next
      case None
      with \<open>rawStr c = Some str\<close> False scan p c1 show ?thesis
        by (auto simp: parse_def Let_def split: if_splits dest: gitParse_error)
    qed
  qed
qed

lemma parseOrCatch_Error:
  assumes "parse c = (Some (Error msg), c')"
  shows "parseOrCatch c = (Some (Error msg), c')"
  using assms by (simp add: parseOrCatch_def)

lemma initialize_Error:
  assumes "\<not> falsy (rawStr c)" and "parse c = (Some (Error msg), c')"
  shows "initialize c = (Some (Error msg), c')"
  using assms by (simp add: initialize_def validateAtInit_def parseOrCatch_def)

lemma initialize_error_kind:
  assumes "initialize c = (None, c')" and "error c' = Some (Error msg)"
  shows "error c = Some (Error msg)"
proof -
  from assms(1) have run: "parseOrCatch c = (None, c')"
    by (auto simp: initialize_def validateAtInit_def split: if_splits)
  obtain t c1 where p: "parse c = (t, c1)" by (cases "parse c")
  from parse_error [OF p] have kept: "error c1 = error c" .
  show ?thesis
  proof (cases t)
    case None
    with run p kept assms(2) show ?thesis by (simp add: parseOrCatch_def)
  next
    case (Some err)
    with run p have "catchClause err c1 = (None, c')" by (simp add: parseOrCatch_def)
    with assms(2) show ?thesis by (cases err) auto
  qed
qed

lemma initialize_unmapped:
  assumes "rawStr c = Some str" and "take 3 str = js ''git''" and "str \<noteq> js ''git''"
    and "\<forall>(m', r) \<in> set getRegexMap. exec r (drop 4 str) = None"
    and "method' c = Some m" and "m \<noteq> []" and "options c = Some opts"
    and "OptionParser m opts = Inl (Error msg)"
  shows "initialize c = (Some (Error msg), c)"
proof -
  have "length (js ''git '') = 4" by (simp add: js_def)
  with assms(4-8) have "gitParse str c = (Some (Error msg), c)"
    by (simp add: gitParse_def parseOffOptions_def eachRegex_none)
  with parse_git [OF assms(1-3)] have "parse c = (Some (Error msg), c)" by simp
  moreover from assms(1,2) have "\<not> falsy (rawStr c)" by (auto simp: js_def)
  ultimately show ?thesis by (rule initialize_Error [rotated])
qed

section \<open>The empty line\<close>

text \<open>
  C1. For the empty input line the claim expects the pseudo-result with the empty message.
  \<^verbatim>\<open>parse\<close> has this branch (the second equation below), but the constructor never
  reaches it: \<^verbatim>\<open>validateAtInit\<close> runs first, the empty string is falsy, and the plain
  \<^verbatim>\<open>Error\<close> it throws leaves the constructor; the \<^verbatim>\<open>error\<close> attribute stays \<^verbatim>\<open>null\<close>.
\<close>

theorem C1_empty_line_throws:
  "newCommand (js '''') =
     (Some (Error (js ''Give me a string!'')), defaults\<lparr>rawStr := Some (js '''')\<rparr>)
   \<and> parse (defaults\<lparr>rawStr := Some (js '''')\<rparr>) =
     (Some (CommandResult (js '''')), defaults\<lparr>rawStr := Some (js '''')\<rparr>)"
  by (simp add: newCommand_def initialize_def validateAtInit_def parse_def defaults_def js_def)

section \<open>The option map that the parser returns\<close>

text \<open>
  C2, as the code has it. For a method \<open>m\<close> of the option table and a remainder \<open>r\<close> on
  which the parser succeeds, the map it returns has every option that \<open>m\<close> supports as a
  key, in the order of the table, whether the option occurs in \<open>r\<close> or not. The options
  that occur in \<open>r\<close> are exactly the keys whose value is an array of arguments; a supported
  option that does not occur in \<open>r\<close> keeps the value \<^verbatim>\<open>false\<close>.
\<close>

theorem C2_option_keys:
  assumes "map_of getMasterOptionMap m = Some sm" and "OptionParser m r = Inr p"
  shows "map fst (p_supportedMap p) = map fst sm \<and>
    (\<forall>f. (\<exists>a. map_of (p_supportedMap p) f = Some (Args a)) \<longleftrightarrow>
          (f \<in> set (exploded r) \<and> isOption f)) \<and>
    (\<forall>f \<in> fst ` set sm. f \<notin> set (exploded r) \<longrightarrow> map_of (p_supportedMap p) f = Some JsFalse)"
proof -
  let ?p = "\<lparr>p_method = m, rawOptions = r, p_supportedMap = sm, p_generalArgs = []\<rparr>"
  from assms have run: "forLoop (exploded r) ?p = Inr p"
    by (rule OptionParser_Inr)
  have keys: "map fst (p_supportedMap p) = map fst sm"
    using forLoop_keys [OF run] by simp
  have no_args: "map_of sm f \<noteq> Some (Args a)" for f a
    using master_entry [OF assms(1)] by (auto dest: map_of_SomeD)
  have given: "(\<exists>a. map_of (p_supportedMap p) f = Some (Args a)) \<longleftrightarrow>
      (f \<in> set (exploded r) \<and> isOption f)" for f
    using forLoop_given [OF run, of f] no_args by simp
  have absent: "map_of (p_supportedMap p) f = Some JsFalse"
    if "f \<in> fst ` set sm" and "f \<notin> set (exploded r)" for f
  proof -
    from that(1) keys have "f \<in> fst ` set (p_supportedMap p)"
      by (metis set_map)
    then obtain v where v: "map_of (p_supportedMap p) f = Some v"
      by (metis map_of_eq_None_iff not_None_eq)
    show ?thesis
    proof (cases v)
      case JsFalse
      with v show ?thesis by simp
    next
      case (Args a)
      with v given [of f] that(2) show ?thesis by auto
    qed
  qed
  from keys given absent show ?thesis by blast
qed

text \<open>The theorem at the method \<^verbatim>\<open>commit\<close> and the remainder \<^verbatim>\<open>-a x\<close>.\<close>

theorem C2_option_keys_witness:
  "map_of getMasterOptionMap (js ''commit'') =
     Some [(js ''--amend'', JsFalse), (js ''-a'', JsFalse), (js ''-am'', JsFalse)]
   \<and> OptionParser (js ''commit'') (js ''-a x'') =
     Inr \<lparr>p_method = js ''commit'', rawOptions = js ''-a x'',
          p_supportedMap =
            [(js ''--amend'', JsFalse), (js ''-a'', Args [js ''x'']), (js ''-am'', JsFalse)],
          p_generalArgs = []\<rparr>
   \<and> map fst [(js ''--amend'', JsFalse), (js ''-a'', Args [js ''x'']), (js ''-am'', JsFalse)] =
     map fst [(js ''--amend'', JsFalse), (js ''-a'', JsFalse), (js ''-am'', JsFalse)]
   \<and> (\<exists>a. map_of [(js ''--amend'', JsFalse), (js ''-a'', Args [js ''x'']), (js ''-am'', JsFalse)]
          (js ''-a'') = Some (Args a))
   \<and> map_of [(js ''--amend'', JsFalse), (js ''-a'', Args [js ''x'']), (js ''-am'', JsFalse)]
          (js ''--amend'') = Some JsFalse"
proof -
  let ?sm = "[(js ''--amend'', JsFalse), (js ''-a'', JsFalse), (js ''-am'', JsFalse)]"
  let ?p = "\<lparr>p_method = js ''commit'', rawOptions = js ''-a x'',
    p_supportedMap =
      [(js ''--amend'', JsFalse), (js ''-a'', Args [js ''x'']), (js ''-am'', JsFalse)],
    p_generalArgs = []\<rparr>"
  have h1: "map_of getMasterOptionMap (js ''commit'') = Some ?sm"
    by code_simp
  have h2: "OptionParser (js ''commit'') (js ''-a x'') = Inr ?p"
    by code_simp
  have seen: "js ''-a'' \<in> set (exploded (js ''-a x'')) \<and> isOption (js ''-a'')"
    by code_simp
  have unseen: "js ''--amend'' \<in> fst ` set ?sm" "js ''--amend'' \<notin> set (exploded (js ''-a x''))"
    by code_simp+
  note concl = C2_option_keys [OF h1 h2]
  from concl have c1: "map fst (p_supportedMap ?p) = map fst ?sm"
    by (rule conjunct1)
  from concl seen have c2: "\<exists>a. map_of (p_supportedMap ?p) (js ''-a'') = Some (Args a)"
    by blast
  from concl unseen have c3: "map_of (p_supportedMap ?p) (js ''--amend'') = Some JsFalse"
    by blast
  from h1 h2 c1 c2 c3 show ?thesis
    by (simp only: optionParser.simps simp_thms)
qed

text \<open>
  The claim as it stands fails on the empty remainder: no token is met, and the map that
  the parser returns for \<^verbatim>\<open>commit\<close> has the three options of the table as its keys.
\<close>

theorem C2_counterexample:
  "OptionParser (js ''commit'') (js '''') =
     Inr \<lparr>p_method = js ''commit'', rawOptions = js '''',
          p_supportedMap = [(js ''--amend'', JsFalse), (js ''-a'', JsFalse), (js ''-am'', JsFalse)],
          p_generalArgs = []\<rparr>
   \<and> exploded (js '''') = []"
  by code_simp

section \<open>An option that is not supported\<close>

text \<open>
  C3. Let \<open>m\<close> be a method of the option table and let the tokens of \<open>r\<close> be
  \<open>pre @ tok # post\<close>, where \<open>tok\<close> starts with \<^verbatim>\<open>-\<close>, is not an option of \<open>m\<close>, and is
  the first such token. Then the parser fails with the error for \<open>tok\<close>; the loop fails
  at \<open>tok\<close> whatever follows it; \<^verbatim>\<open>gitParse\<close> passes the error on and leaves the command
  as it was; and the command built from \<^verbatim>\<open>git m r\<close> has the method and the raw remainder
  recorded, the error set, and \<^verbatim>\<open>generalArgs\<close> and \<^verbatim>\<open>supportedMap\<close> at their defaults.
  The error names the option; the method is the command's \<^verbatim>\<open>method\<close> attribute.
\<close>

theorem C3_unsupported_option:
  assumes "map_of getMasterOptionMap m = Some sm"
    and "exploded r = pre @ tok # post"
    and "isOption tok" and "map_of sm tok = None"
    and "\<forall>t \<in> set pre. isOption t \<longrightarrow> map_of sm t \<noteq> None"
  shows "OptionParser m r = Inl (UnsupportedOption tok) \<and>
    (\<forall>post'. forLoop (pre @ tok # post')
        \<lparr>p_method = m, rawOptions = r, p_supportedMap = sm, p_generalArgs = []\<rparr> =
      Inl (UnsupportedOption tok)) \<and>
    (\<forall>fullCommand c. method' c = Some m \<and> options c = Some r \<longrightarrow>
      parseOffOptions fullCommand c = (Some (UnsupportedOption tok), c)) \<and>
    newCommand (js ''git '' @ m @ js '' '' @ r) =
      (None, defaults\<lparr>rawStr := Some (js ''git '' @ m @ js '' '' @ r),
         options := Some r, method' := Some m, error := Some (UnsupportedOption tok)\<rparr>)"
proof -
  let ?p = "\<lparr>p_method = m, rawOptions = r, p_supportedMap = sm, p_generalArgs = []\<rparr>"
  have loop: "forLoop (pre @ tok # post') ?p = Inl (UnsupportedOption tok)" for post'
    using assms(3-5) by (intro forLoop_unsupported) simp_all
  from loop [of post] assms(1,2)
  have parser: "OptionParser m r = Inl (UnsupportedOption tok)"
    by (simp add: OptionParser_def explodeAndSet_def optionMapOf_own)
  from master_entry [OF assms(1)] have entry: "(m, WordThen m) \<in> set getRegexMap" ..
  from regex_entry [OF entry] have m: "m \<noteq> []" by simp
  have opts: "parseOffOptions fullCommand c = (Some (UnsupportedOption tok), c)"
    if "method' c = Some m \<and> options c = Some r" for fullCommand c
    using that m parser by (simp add: parseOffOptions_def)
  let ?raw = "js ''git '' @ m @ js '' '' @ r"
  let ?c = "defaults\<lparr>rawStr := Some ?raw\<rparr>"
  have raw: "?raw = 0x67 # 0x69 # 0x74 # 0x20 # m @ 0x20 # r"
    by (simp add: js_def)
  have "parse ?c = gitParse ?raw ?c"
    by (rule parse_git) (simp_all add: raw js_git)
  moreover have "exec (WordThen m) (drop 4 ?raw) \<noteq> None"
    unfolding WordThen_iff by (auto simp: raw is_space_def)
  moreover have "drop (length m + 1) (drop 4 ?raw) = r"
    by (simp add: raw)
  ultimately have "parse ?c =
    (Some (UnsupportedOption tok), ?c\<lparr>options := Some r, method' := Some m\<rparr>)"
    using parser by (simp add: gitParse_known [OF entry])
  then have "newCommand ?raw =
    (None, ?c\<lparr>options := Some r, method' := Some m, error := Some (UnsupportedOption tok)\<rparr>)"
    by (simp add: newCommand_def initialize_def validateAtInit_def parseOrCatch_def
        UnsupportedOption_def raw)
  with parser loop opts show ?thesis by blast
qed

text \<open>The theorem at \<^verbatim>\<open>git commit -a x y -g z\<close>.\<close>

theorem C3_unsupported_option_witness:
  "map_of getMasterOptionMap (js ''commit'') =
     Some [(js ''--amend'', JsFalse), (js ''-a'', JsFalse), (js ''-am'', JsFalse)]
   \<and> exploded (js ''-a x y -g z'') = [js ''-a'', js ''x'', js ''y''] @ js ''-g'' # [js ''z'']
   \<and> isOption (js ''-g'')
   \<and> map_of [(js ''--amend'', JsFalse), (js ''-a'', JsFalse), (js ''-am'', JsFalse)] (js ''-g'') = None
   \<and> \<not> (\<exists>t \<in> set [js ''-a'', js ''x'', js ''y'']. isOption t \<and>
        map_of [(js ''--amend'', JsFalse), (js ''-a'', JsFalse), (js ''-am'', JsFalse)] t = None)
   \<and> OptionParser (js ''commit'') (js ''-a x y -g z'') = Inl (UnsupportedOption (js ''-g''))
   \<and> newCommand (js ''git '' @ js ''commit'' @ js '' '' @ js ''-a x y -g z'') =
      (None, defaults\<lparr>rawStr := Some (js ''git '' @ js ''commit'' @ js '' '' @ js ''-a x y -g z''),
         options := Some (js ''-a x y -g z''), method' := Some (js ''commit''),
         error := Some (UnsupportedOption (js ''-g''))\<rparr>)"
proof -
  let ?sm = "[(js ''--amend'', JsFalse), (js ''-a'', JsFalse), (js ''-am'', JsFalse)]"
  have h1: "map_of getMasterOptionMap (js ''commit'') = Some ?sm"
    by code_simp
  have h2: "exploded (js ''-a x y -g z'') = [js ''-a'', js ''x'', js ''y''] @ js ''-g'' # [js ''z'']"
    by code_simp
  have h3: "isOption (js ''-g'')"
    by code_simp
  have h4: "map_of ?sm (js ''-g'') = None"
    by code_simp
  have h5: "\<forall>t \<in> set [js ''-a'', js ''x'', js ''y'']. isOption t \<longrightarrow> map_of ?sm t \<noteq> None"
    by code_simp
  note concl = C3_unsupported_option [OF h1 h2 h3 h4 h5]
  from h5 have h5': "\<not> (\<exists>t \<in> set [js ''-a'', js ''x'', js ''y'']. isOption t \<and> map_of ?sm t = None)"
    by blast
  from concl have c1: "OptionParser (js ''commit'') (js ''-a x y -g z'') = Inl (UnsupportedOption (js ''-g''))"
    by (rule conjunct1)
  from concl have c2: "newCommand (js ''git '' @ js ''commit'' @ js '' '' @ js ''-a x y -g z'') =
      (None, defaults\<lparr>rawStr := Some (js ''git '' @ js ''commit'' @ js '' '' @ js ''-a x y -g z''),
         options := Some (js ''-a x y -g z''), method' := Some (js ''commit''),
         error := Some (UnsupportedOption (js ''-g''))\<rparr>)"
    by (elim conjE)
  from h1 h2 h3 h4 h5' c1 c2 show ?thesis
    by (intro conjI)
qed

section \<open>Tokens\<close>

text \<open>
  C4. The claim: the remainder is split on white space, except that a span enclosed in
  matching single or double quotes is one token, with the quotes stripped; the tokens of
  \<^verbatim>\<open>a "b c" d\<close> are \<^verbatim>\<open>a\<close>, \<^verbatim>\<open>b c\<close>, \<^verbatim>\<open>d\<close>, and the empty remainder has none. The
  comment of \<^verbatim>\<open>explodeAndSet\<close> says the same: split on spaces, except when inside quotes.
  The two instances hold. But the pattern tries a quoted span only where a token starts:
  in \<^verbatim>\<open>a"b c"\<close> the quote follows \<^verbatim>\<open>a\<close>, the run \<^verbatim>\<open>a"b\<close> is taken as a token, and the
  space inside the quotes splits the span \<^verbatim>\<open>"b c"\<close> in two; so \<^verbatim>\<open>git add a"b c"\<close> has
  the two general arguments \<^verbatim>\<open>ab\<close> and \<^verbatim>\<open>c\<close>.
\<close>

theorem C4_quote_inside_run:
  "exploded (js ''a\"b c\"'') = [js ''ab'', js ''c''] \<and>
   newCommand (js ''git add a\"b c\"'') =
     (None, defaults\<lparr>rawStr := Some (js ''git add a\"b c\"''),
        options := Some (js ''a\"b c\"''), method' := Some (js ''add''),
        generalArgs := [js ''ab'', js ''c''], supportedMap := []\<rparr>) \<and>
   exploded (js ''a \"b c\" d'') = [js ''a'', js ''b c'', js ''d''] \<and>
   exploded (js '''') = []"
  by code_simp

section \<open>Method resolution\<close>

text \<open>
  C5, as the code has it. On a command with no method yet, a method of the table is
  selected exactly when the text after the first four characters is the method's name,
  or starts with the name followed by a white-space character: any character of the
  class \<^verbatim>\<open>\s\<close>, a space as well as a tab or a line terminator. The options are then
  the text behind that character. So \<^verbatim>\<open>add\<close> does not match \<^verbatim>\<open>addition\<close>. If no method
  of the table matches, \<^verbatim>\<open>gitParse\<close> throws the error that carries the attempted text
  and leaves the command as it was; \<^verbatim>\<open>git fetch\<close> gives the error for \<^verbatim>\<open>fetch\<close>.
\<close>

theorem C5_method_resolution:
  "(\<forall>m fullCommand c. m \<in> fst ` set getRegexMap \<and> method' c = None \<longrightarrow>
      (method' (eachRegex getRegexMap fullCommand c) = Some m \<longleftrightarrow>
       fullCommand = m \<or> (\<exists>s rest. fullCommand = m @ s # rest \<and> is_space s))) \<and>
   (\<forall>m s rest c. m \<in> fst ` set getRegexMap \<and> is_space s \<longrightarrow>
      eachRegex getRegexMap (m @ s # rest) c = c\<lparr>options := Some rest, method' := Some m\<rparr>) \<and>
   (\<forall>str c. method' c = None \<and>
      (\<forall>m \<in> fst ` set getRegexMap.
         \<not> (drop 4 str = m \<or> (\<exists>s rest. drop 4 str = m @ s # rest \<and> is_space s))) \<longrightarrow>
      gitParse str c = (Some (UnsupportedMethod (drop 4 str)), c)) \<and>
   method' (eachRegex getRegexMap (js ''addition'') defaults) = None \<and>
   newCommand (js ''git fetch'') =
     (None, defaults\<lparr>rawStr := Some (js ''git fetch''),
        error := Some (UnsupportedMethod (js ''fetch''))\<rparr>)"
proof -
  have exact: "method' (eachRegex getRegexMap fullCommand c) = Some m \<longleftrightarrow>
      fullCommand = m \<or> (\<exists>s rest. fullCommand = m @ s # rest \<and> is_space s)"
    if "m \<in> fst ` set getRegexMap \<and> method' c = None" for m fullCommand c
    using that by (intro eachRegex_method) simp_all
  have sel: "eachRegex getRegexMap (m @ s # rest) c = c\<lparr>options := Some rest, method' := Some m\<rparr>"
    if "m \<in> fst ` set getRegexMap \<and> is_space s" for m s rest c
  proof -
    from that have entry: "(m, WordThen m) \<in> set getRegexMap"
      by (simp only: regex_names)
    from that have "exec (WordThen m) (m @ s # rest) \<noteq> None"
      unfolding WordThen_iff by blast
    from eachRegex_select [OF entry this, of c] show ?thesis by simp
  qed
  have unknown: "gitParse str c = (Some (UnsupportedMethod (drop 4 str)), c)"
    if "method' c = None \<and>
      (\<forall>m \<in> fst ` set getRegexMap.
         \<not> (drop 4 str = m \<or> (\<exists>s rest. drop 4 str = m @ s # rest \<and> is_space s)))"
    for str c
  proof -
    have "exec r (drop 4 str) = None" if e: "(m, r) \<in> set getRegexMap" for m r
    proof -
      from e have "m \<in> fst ` set getRegexMap" by force
      with \<open>method' c = None \<and> _\<close>
      have "\<not> (drop 4 str = m \<or> (\<exists>s rest. drop 4 str = m @ s # rest \<and> is_space s))"
        by blast
      then have "exec (WordThen m) (drop 4 str) = None"
        using WordThen_iff [of m "drop 4 str"] by blast
      with regex_entry [OF e] show ?thesis by simp
    qed
    then have "\<forall>(m, r) \<in> set getRegexMap. exec r (drop 4 str) = None" by auto
    with that show ?thesis by (intro gitParse_unknown) simp_all
  qed
  have addition: "method' (eachRegex getRegexMap (js ''addition'') defaults) = None"
    by code_simp
  have fetch: "newCommand (js ''git fetch'') =
     (None, defaults\<lparr>rawStr := Some (js ''git fetch''),
        error := Some (UnsupportedMethod (js ''fetch''))\<rparr>)"
    by code_simp
  from exact sel unknown addition fetch show ?thesis
    by (intro conjI allI impI)
qed

text \<open>The theorem at \<^verbatim>\<open>commit\<close> followed by a tab, and at \<^verbatim>\<open>git fetch\<close>.\<close>

theorem C5_method_resolution_witness:
  "js ''commit'' \<in> fst ` set getRegexMap \<and> method' defaults = None \<and> is_space 0x09 \<and>
   method' (eachRegex getRegexMap (js ''commit'' @ 0x09 # js ''-a'') defaults) = Some (js ''commit'') \<and>
   eachRegex getRegexMap (js ''commit'' @ 0x09 # js ''-a'') defaults =
     defaults\<lparr>options := Some (js ''-a''), method' := Some (js ''commit'')\<rparr> \<and>
   \<not> (\<exists>m \<in> fst ` set getRegexMap. drop 4 (js ''git fetch'') = m \<or>
        (\<exists>s rest. drop 4 (js ''git fetch'') = m @ s # rest \<and> is_space s)) \<and>
   gitParse (js ''git fetch'') defaults = (Some (UnsupportedMethod (drop 4 (js ''git fetch''))), defaults)"
proof -
  note concl = C5_method_resolution
  have h1: "js ''commit'' \<in> fst ` set getRegexMap"
    by code_simp
  have h2: "method' defaults = None"
    by (simp add: defaults_def)
  have h3: "is_space 0x09"
    by (simp add: is_space_def)
  from concl h1 h2 h3
  have c1: "method' (eachRegex getRegexMap (js ''commit'' @ 0x09 # js ''-a'') defaults) =
      Some (js ''commit'')"
    by blast
  from concl h1 h3
  have c2: "eachRegex getRegexMap (js ''commit'' @ 0x09 # js ''-a'') defaults =
     defaults\<lparr>options := Some (js ''-a''), method' := Some (js ''commit'')\<rparr>"
    by blast
  have h4: "\<forall>m \<in> fst ` set getRegexMap.
      \<not> (drop 4 (js ''git fetch'') = m \<or>
         (\<exists>s rest. drop 4 (js ''git fetch'') = m @ s # rest \<and> is_space s))"
    by (simp add: getRegexMap_def js_def Cons_eq_append_conv)
  from concl h2 h4
  have c3: "gitParse (js ''git fetch'') defaults =
      (Some (UnsupportedMethod (drop 4 (js ''git fetch''))), defaults)"
    by blast
  from h4 have h4': "\<not> (\<exists>m \<in> fst ` set getRegexMap. drop 4 (js ''git fetch'') = m \<or>
        (\<exists>s rest. drop 4 (js ''git fetch'') = m @ s # rest \<and> is_space s))"
    by blast
  from h1 h2 h3 c1 c2 h4' c3 show ?thesis
    by (intro conjI)
qed

text \<open>
  The claim as it stands asks for the end of the string or a space behind the name. In
  \<^verbatim>\<open>git commit\<close>, a tab, \<^verbatim>\<open>-a\<close> the name is followed by a tab, which is not a space, and
  \<^verbatim>\<open>commit\<close> is selected all the same.
\<close>

theorem C5_counterexample:
  "newCommand (js ''git commit'' @ [0x09] @ js ''-a'') =
     (None, defaults\<lparr>rawStr := Some (js ''git commit'' @ [0x09] @ js ''-a''),
        options := Some (js ''-a''), method' := Some (js ''commit''), generalArgs := [],
        supportedMap := [(js ''--amend'', JsFalse), (js ''-a'', Args []), (js ''-am'', JsFalse)]\<rparr>) \<and>
   (0x09 :: jschar) \<noteq> 0x20 \<and> is_space 0x09"
  by code_simp

section \<open>Shortcuts\<close>

text \<open>
  C6. The command built from \<^verbatim>\<open>gc --amend\<close> and the command built from
  \<^verbatim>\<open>git commit --amend\<close> have the same method, the same option map, the same general
  arguments and the same raw remainder; they differ in \<^verbatim>\<open>rawStr\<close> only. The shortcut
  loop rewrites \<^verbatim>\<open>gc\<close> and a space in front of any text to \<^verbatim>\<open>git commit\<close> and a space in
  front of the same text.
\<close>

theorem C6_shortcut_keeps_options:
  "newCommand (js ''gc --amend'') =
     (None, defaults\<lparr>rawStr := Some (js ''gc --amend''),
        options := Some (js ''--amend''), method' := Some (js ''commit''), generalArgs := [],
        supportedMap := [(js ''--amend'', Args []), (js ''-a'', JsFalse), (js ''-am'', JsFalse)]\<rparr>) \<and>
   newCommand (js ''git commit --amend'') =
     (None, defaults\<lparr>rawStr := Some (js ''git commit --amend''),
        options := Some (js ''--amend''), method' := Some (js ''commit''), generalArgs := [],
        supportedMap := [(js ''--amend'', Args []), (js ''-a'', JsFalse), (js ''-am'', JsFalse)]\<rparr>) \<and>
   (\<forall>rest. eachShortcut getShortcutMap (js ''gc '' @ rest) = js ''git commit '' @ rest)"
proof -
  have gc: "newCommand (js ''gc --amend'') =
     (None, defaults\<lparr>rawStr := Some (js ''gc --amend''),
        options := Some (js ''--amend''), method' := Some (js ''commit''), generalArgs := [],
        supportedMap := [(js ''--amend'', Args []), (js ''-a'', JsFalse), (js ''-am'', JsFalse)]\<rparr>)"
    by code_simp
  have git: "newCommand (js ''git commit --amend'') =
     (None, defaults\<lparr>rawStr := Some (js ''git commit --amend''),
        options := Some (js ''--amend''), method' := Some (js ''commit''), generalArgs := [],
        supportedMap := [(js ''--amend'', Args []), (js ''-a'', JsFalse), (js ''-am'', JsFalse)]\<rparr>)"
    by code_simp
  have expand: "eachShortcut getShortcutMap (js ''gc '' @ rest) = js ''git commit '' @ rest" for rest
    by (simp add: getShortcutMap_def js_def is_space_def)
  from gc git expand show ?thesis
    by simp
qed

section \<open>Sandbox commands\<close>

text \<open>
  C7. The scan over a list of sandbox commands stops at the first entry whose pattern
  matches and whose action throws: the result is what that action throws, whatever
  entries follow. No input matches more than one pattern of the table. Where a pattern
  of the table matches, \<^verbatim>\<open>parse\<close> ends with the \<^verbatim>\<open>CommandResult\<close> of the scan, before the
  test for \<^verbatim>\<open>git\<close> is reached. \<^verbatim>\<open>ls -la\<close> gives the fixed message of the first entry,
  and \<^verbatim>\<open>svn status\<close> gives the error of the test for \<^verbatim>\<open>git\<close>.
\<close>

theorem C7_sandbox_first:
  "(\<forall>pre regex act rest str c t c'.
      (\<forall>(r, a) \<in> set pre. exec r str = None) \<and> exec regex str \<noteq> None \<and> act c = (Some t, c') \<longrightarrow>
      eachSandbox (pre @ (regex, act) # rest) str c = (Some t, c')) \<and>
   (\<forall>str. length (filter (\<lambda>(r, a). exec r str \<noteq> None) getSandboxCommands) \<le> 1) \<and>
   (\<forall>str c. rawStr c = Some str \<and> (\<exists>(r, a) \<in> set getSandboxCommands. exec r str \<noteq> None) \<longrightarrow>
      (\<exists>msg c'. parse c = (Some (CommandResult msg), c'))) \<and>
   newCommand (js ''ls -la'') =
     (None, defaults\<lparr>rawStr := Some (js ''ls -la''),
        error := Some (CommandResult (js ''DontWorryAboutFilesInThisDemo.txt''))\<rparr>) \<and>
   newCommand (js ''svn status'') =
     (None, defaults\<lparr>rawStr := Some (js ''svn status''), error := Some UnsupportedTopLevel\<rparr>)"
proof -
  have ls: "newCommand (js ''ls -la'') =
     (None, defaults\<lparr>rawStr := Some (js ''ls -la''),
        error := Some (CommandResult (js ''DontWorryAboutFilesInThisDemo.txt''))\<rparr>)"
    by code_simp
  have svn: "newCommand (js ''svn status'') =
     (None, defaults\<lparr>rawStr := Some (js ''svn status''), error := Some UnsupportedTopLevel\<rparr>)"
    by code_simp
  have first: "\<forall>pre regex act rest str c t c'.
      (\<forall>(r, a) \<in> set pre. exec r str = None) \<and> exec regex str \<noteq> None \<and> act c = (Some t, c') \<longrightarrow>
      eachSandbox (pre @ (regex, act) # rest) str c = (Some t, c')"
    using eachSandbox_first by blast
  have wins: "\<forall>str c. rawStr c = Some str \<and>
      (\<exists>(r, a) \<in> set getSandboxCommands. exec r str \<noteq> None) \<longrightarrow>
      (\<exists>msg c'. parse c = (Some (CommandResult msg), c'))"
    using sandbox_wins by blast
  have one: "\<forall>str. length (filter (\<lambda>(r, a). exec r str \<noteq> None) getSandboxCommands) \<le> 1"
    using sandbox_exclusive by blast
  from first one wins ls svn show ?thesis
    by (intro conjI)
qed

text \<open>The theorem at a list of three entries and \<^verbatim>\<open>ls -la\<close>, and at \<^verbatim>\<open>cd ..\<close>.\<close>

theorem C7_sandbox_first_witness:
  "\<not> (\<exists>(r, a) \<in> set [(Whole (js ''git''), \<lambda>c. (Some (CommandResult gitUsage), c))].
        exec r (js ''ls -la'') \<noteq> None) \<and>
   exec (StartsWith (js ''ls'')) (js ''ls -la'') \<noteq> None \<and>
   eachSandbox
     ([(Whole (js ''git''), \<lambda>c. (Some (CommandResult gitUsage), c))] @
      (StartsWith (js ''ls''), \<lambda>c. (Some (CommandResult (js ''one'')), c)) #
      [(StartsWith (js ''l''), \<lambda>c. (Some (CommandResult (js ''two'')), c))])
     (js ''ls -la'') defaults = (Some (CommandResult (js ''one'')), defaults) \<and>
   rawStr (defaults\<lparr>rawStr := Some (js ''cd ..'')\<rparr>) = Some (js ''cd ..'') \<and>
   (\<exists>(r, a) \<in> set getSandboxCommands. exec r (js ''cd ..'') \<noteq> None) \<and>
   (\<exists>msg c'. parse (defaults\<lparr>rawStr := Some (js ''cd ..'')\<rparr>) = (Some (CommandResult msg), c'))"
proof -
  note concl = C7_sandbox_first
  let ?pre = "[(Whole (js ''git''), \<lambda>c. (Some (CommandResult gitUsage), c))]"
  have h1: "\<forall>(r, a) \<in> set ?pre. exec r (js ''ls -la'') = None"
    by (simp add: js_def)
  have h2: "exec (StartsWith (js ''ls'')) (js ''ls -la'') \<noteq> None"
    by (simp add: js_def)
  have h3: "(\<lambda>c. (Some (CommandResult (js ''one'')), c)) defaults =
      (Some (CommandResult (js ''one'')), defaults)"
    by simp
  from concl h1 h2 h3 have c1: "eachSandbox
     (?pre @ (StartsWith (js ''ls''), \<lambda>c. (Some (CommandResult (js ''one'')), c)) #
      [(StartsWith (js ''l''), \<lambda>c. (Some (CommandResult (js ''two'')), c))])
     (js ''ls -la'') defaults = (Some (CommandResult (js ''one'')), defaults)"
    by blast
  have h4: "rawStr (defaults\<lparr>rawStr := Some (js ''cd ..'')\<rparr>) = Some (js ''cd ..'')"
    by simp
  have h5: "\<exists>(r, a) \<in> set getSandboxCommands. exec r (js ''cd ..'') \<noteq> None"
    by (simp add: getSandboxCommands_def js_def)
  from concl h4 h5
  have c2: "\<exists>msg c'. parse (defaults\<lparr>rawStr := Some (js ''cd ..'')\<rparr>) = (Some (CommandResult msg), c')"
    by blast
  from h1 have h1': "\<not> (\<exists>(r, a) \<in> set ?pre. exec r (js ''ls -la'') \<noteq> None)"
    by simp
  from h1' h2 c1 h4 h5 c2 show ?thesis
    by (intro conjI)
qed

section \<open>Keys and general arguments of a parsed command\<close>

text \<open>
  C8. A command that was built without an error has a method of the tables; every key
  of its \<^verbatim>\<open>supportedMap\<close> is an option that the table gives for this method, and no
  element of its \<^verbatim>\<open>generalArgs\<close> starts with \<^verbatim>\<open>-\<close>.
\<close>

theorem C8_supported_keys:
  assumes "newCommand raw = (None, c)" and "error c = None"
  shows "\<exists>m sm. method' c = Some m \<and> m \<in> fst ` set getRegexMap \<and>
    map_of getMasterOptionMap m = Some sm \<and>
    fst ` set (supportedMap c) \<subseteq> fst ` set sm \<and>
    (\<forall>g \<in> set (generalArgs c). \<not> isOption g)"
proof -
  let ?c = "defaults\<lparr>rawStr := Some raw\<rparr>"
  have fresh: "rawStr ?c = Some raw" "method' ?c = None"
    by (simp_all add: defaults_def)
  from newCommand_success [OF assms] have "parse ?c = (None, c)" .
  from parse_success [OF fresh(1) this] obtain str where "gitParse str ?c = (None, c)" ..
  from gitParse_success [OF fresh(2) this]
  obtain m r p where sel: "(m, r) \<in> set getRegexMap"
    and parser: "OptionParser m (drop (length m + 1) (drop 4 str)) = Inr p"
    and c: "c = ?c\<lparr>options := Some (drop (length m + 1) (drop 4 str)), method' := Some m,
            generalArgs := p_generalArgs p, supportedMap := p_supportedMap p\<rparr>"
    by blast
  from regex_entry [OF sel] obtain sm where sm: "map_of getMasterOptionMap m = Some sm"
    by auto
  from OptionParser_Inr [OF sm parser]
  have run: "forLoop (exploded (drop (length m + 1) (drop 4 str)))
       \<lparr>p_method = m, rawOptions = drop (length m + 1) (drop 4 str), p_supportedMap = sm,
         p_generalArgs = []\<rparr> = Inr p" .
  have fields: "supportedMap c = p_supportedMap p" "generalArgs c = p_generalArgs p"
    "method' c = Some m"
    by (simp_all add: c)
  from forLoop_keys [OF run] have "map fst (supportedMap c) = map fst sm"
    by (simp add: fields)
  then have "set (map fst (supportedMap c)) = set (map fst sm)"
    by (rule arg_cong)
  then have keys: "fst ` set (supportedMap c) \<subseteq> fst ` set sm"
    by simp
  from forLoop_generalArgs [OF run]
  have args: "\<forall>g \<in> set (generalArgs c). \<not> isOption g"
    by (auto simp: fields)
  from sel have "m \<in> fst ` set getRegexMap" by force
  with fields(3) sm keys args show ?thesis by blast
qed

text \<open>The theorem at \<^verbatim>\<open>git commit foo -a x\<close>.\<close>

theorem C8_supported_keys_witness:
  "\<exists>c. newCommand (js ''git commit foo -a x'') = (None, c) \<and> error c = None \<and>
     generalArgs c = [js ''foo''] \<and>
     supportedMap c =
       [(js ''--amend'', JsFalse), (js ''-a'', Args [js ''x'']), (js ''-am'', JsFalse)] \<and>
     (\<exists>m sm. method' c = Some m \<and> m \<in> fst ` set getRegexMap \<and>
        map_of getMasterOptionMap m = Some sm \<and>
        fst ` set (supportedMap c) \<subseteq> fst ` set sm \<and>
        (\<forall>g \<in> set (generalArgs c). \<not> isOption g))"
proof -
  let ?c = "defaults\<lparr>rawStr := Some (js ''git commit foo -a x''),
        options := Some (js ''foo -a x''), method' := Some (js ''commit''),
        generalArgs := [js ''foo''],
        supportedMap :=
          [(js ''--amend'', JsFalse), (js ''-a'', Args [js ''x'']), (js ''-am'', JsFalse)]\<rparr>"
  have h1: "newCommand (js ''git commit foo -a x'') = (None, ?c)"
    by code_simp
  have h2: "error ?c = None"
    by (simp add: defaults_def)
  have fields: "generalArgs ?c = [js ''foo'']"
    "supportedMap ?c =
       [(js ''--amend'', JsFalse), (js ''-a'', Args [js ''x'']), (js ''-am'', JsFalse)]"
    by simp_all
  from C8_supported_keys [OF h1 h2] h1 h2 fields show ?thesis
    by (intro exI [of _ ?c] conjI)
qed

section \<open>The option map of every method\<close>

text \<open>
  C9. Every method name of the table of patterns has an entry in the table of option
  maps, so the parser never throws a plain \<^verbatim>\<open>Error\<close> for a method of the table, and the
  constructor returns a command for every line that is not empty. The parser throws a
  plain \<^verbatim>\<open>Error\<close> only for a method without an entry, with the message
  \<^verbatim>\<open>No option map for\<close> and the method; \<^verbatim>\<open>fetch\<close> is such a method. The second half of
  \<^verbatim>\<open>gitParse\<close> passes the error on with the command as it was; \<^verbatim>\<open>parseOrCatch\<close> throws
  every plain \<^verbatim>\<open>Error\<close> of \<^verbatim>\<open>parse\<close> again and leaves the \<^verbatim>\<open>error\<close> attribute as it
  was; \<^verbatim>\<open>initialize\<close> then ends with this error, with no command built. So it is for
  every command whose line starts with \<^verbatim>\<open>git\<close> and names no method of the table, and whose
  method attribute was set beforehand to a method without an entry. And where
  \<^verbatim>\<open>initialize\<close> does return a command that had no error, its \<^verbatim>\<open>error\<close> attribute is
  never a plain \<^verbatim>\<open>Error\<close>.
\<close>

theorem C9_option_map_total:
  "(\<forall>m \<in> fst ` set getRegexMap. map_of getMasterOptionMap m \<noteq> None) \<and>
   (\<forall>m \<in> fst ` set getRegexMap. \<forall>opts msg. OptionParser m opts \<noteq> Inl (Error msg)) \<and>
   (\<forall>raw. raw \<noteq> [] \<longrightarrow> (\<exists>c. newCommand raw = (None, c))) \<and>
   (\<forall>m opts msg. OptionParser m opts = Inl (Error msg) \<longrightarrow>
      map_of getMasterOptionMap m = None \<and> msg = js ''No option map for '' @ m) \<and>
   (\<forall>m opts msg fullCommand c.
      OptionParser m opts = Inl (Error msg) \<and> m \<noteq> [] \<and>
      method' c = Some m \<and> options c = Some opts \<longrightarrow>
      parseOffOptions fullCommand c = (Some (Error msg), c)) \<and>
   (\<forall>msg c. catchClause (Error msg) c = (Some (Error msg), c)) \<and>
   OptionParser (js ''fetch'') (js ''origin'') = Inl (Error (js ''No option map for fetch'')) \<and>
   (\<forall>c msg c'. parse c = (Some (Error msg), c') \<longrightarrow>
      parseOrCatch c = (Some (Error msg), c') \<and> error c' = error c) \<and>
   (\<forall>c msg c'. \<not> falsy (rawStr c) \<and> parse c = (Some (Error msg), c') \<longrightarrow>
      initialize c = (Some (Error msg), c')) \<and>
   (\<forall>c str m opts msg.
      rawStr c = Some str \<and> take 3 str = js ''git'' \<and> str \<noteq> js ''git'' \<and>
      (\<forall>(m', r) \<in> set getRegexMap. exec r (drop 4 str) = None) \<and>
      method' c = Some m \<and> m \<noteq> [] \<and> options c = Some opts \<and>
      OptionParser m opts = Inl (Error msg) \<longrightarrow>
      initialize c = (Some (Error msg), c)) \<and>
   (\<forall>c c' msg. initialize c = (None, c') \<and> error c = None \<longrightarrow>
      error c' \<noteq> Some (Error msg)) \<and>
   initialize (defaults\<lparr>rawStr := Some (js ''git pull''), method' := Some (js ''fetch''),
       options := Some (js ''origin'')\<rparr>) =
     (Some (Error (js ''No option map for fetch'')),
      defaults\<lparr>rawStr := Some (js ''git pull''), method' := Some (js ''fetch''),
        options := Some (js ''origin'')\<rparr>)"
proof -
  have branch: "map_of getMasterOptionMap m = None \<and> msg = js ''No option map for '' @ m"
    if "OptionParser m opts = Inl (Error msg)" for m opts msg
    using OptionParser_Inl [OF that] by (auto simp: UnsupportedOption_def)
  have table: "\<forall>m \<in> fst ` set getRegexMap. map_of getMasterOptionMap m \<noteq> None"
    using regex_entry by fastforce
  have never: "\<forall>m \<in> fst ` set getRegexMap. \<forall>opts msg. OptionParser m opts \<noteq> Inl (Error msg)"
    using table branch by blast
  have constructs: "\<forall>raw. raw \<noteq> [] \<longrightarrow> (\<exists>c. newCommand raw = (None, c))"
    using newCommand_constructs by blast
  have only: "\<forall>m opts msg. OptionParser m opts = Inl (Error msg) \<longrightarrow>
      map_of getMasterOptionMap m = None \<and> msg = js ''No option map for '' @ m"
    using branch by blast
  have passes: "\<forall>m opts msg fullCommand c.
      OptionParser m opts = Inl (Error msg) \<and> m \<noteq> [] \<and>
      method' c = Some m \<and> options c = Some opts \<longrightarrow>
      parseOffOptions fullCommand c = (Some (Error msg), c)"
    by (simp add: parseOffOptions_def)
  have rethrown: "\<forall>msg c. catchClause (Error msg) c = (Some (Error msg), c)"
    by simp
  have fetch: "OptionParser (js ''fetch'') (js ''origin'') =
      Inl (Error (js ''No option map for fetch''))"
    by code_simp
  have leaves: "\<forall>c msg c'. parse c = (Some (Error msg), c') \<longrightarrow>
      parseOrCatch c = (Some (Error msg), c') \<and> error c' = error c"
    using parseOrCatch_Error parse_error by blast
  have halts: "\<forall>c msg c'. \<not> falsy (rawStr c) \<and> parse c = (Some (Error msg), c') \<longrightarrow>
      initialize c = (Some (Error msg), c')"
    using initialize_Error by blast
  have unmapped: "\<forall>c str m opts msg.
      rawStr c = Some str \<and> take 3 str = js ''git'' \<and> str \<noteq> js ''git'' \<and>
      (\<forall>(m', r) \<in> set getRegexMap. exec r (drop 4 str) = None) \<and>
      method' c = Some m \<and> m \<noteq> [] \<and> options c = Some opts \<and>
      OptionParser m opts = Inl (Error msg) \<longrightarrow>
      initialize c = (Some (Error msg), c)"
    using initialize_unmapped by blast
  have hidden: "\<forall>c c' msg. initialize c = (None, c') \<and> error c = None \<longrightarrow>
      error c' \<noteq> Some (Error msg)"
    using initialize_error_kind by fastforce
  have pull: "initialize (defaults\<lparr>rawStr := Some (js ''git pull''), method' := Some (js ''fetch''),
       options := Some (js ''origin'')\<rparr>) =
     (Some (Error (js ''No option map for fetch'')),
      defaults\<lparr>rawStr := Some (js ''git pull''), method' := Some (js ''fetch''),
        options := Some (js ''origin'')\<rparr>)"
    by code_simp
  from table never constructs only passes rethrown fetch leaves halts unmapped hidden pull
  show ?thesis
    by (intro conjI)
qed

text \<open>
  The theorem at \<^verbatim>\<open>reset\<close>, a method of the tables, at \<^verbatim>\<open>fetch\<close>, which has no entry, and
  at a command for \<^verbatim>\<open>git pull\<close> whose method is set to \<^verbatim>\<open>fetch\<close> beforehand.
\<close>

theorem C9_option_map_total_witness:
  "js ''reset'' \<in> fst ` set getRegexMap \<and>
   map_of getMasterOptionMap (js ''reset'') \<noteq> None \<and>
   OptionParser (js ''reset'') (js ''--hard'') \<noteq> Inl (Error (js ''No option map for reset'')) \<and>
   js ''git reset --hard'' \<noteq> [] \<and>
   (\<exists>c. newCommand (js ''git reset --hard'') = (None, c) \<and> error c = None) \<and>
   OptionParser (js ''fetch'') (js ''origin'') = Inl (Error (js ''No option map for fetch'')) \<and>
   map_of getMasterOptionMap (js ''fetch'') = None \<and>
   js ''fetch'' \<noteq> [] \<and>
   parseOffOptions (js ''fetch origin'')
       (defaults\<lparr>method' := Some (js ''fetch''), options := Some (js ''origin'')\<rparr>) =
     (Some (Error (js ''No option map for fetch'')),
      defaults\<lparr>method' := Some (js ''fetch''), options := Some (js ''origin'')\<rparr>) \<and>
   rawStr (defaults\<lparr>rawStr := Some (js ''git pull''), method' := Some (js ''fetch''),
       options := Some (js ''origin'')\<rparr>) = Some (js ''git pull'') \<and>
   take 3 (js ''git pull'') = js ''git'' \<and> js ''git pull'' \<noteq> js ''git'' \<and>
   \<not> (\<exists>(m', r) \<in> set getRegexMap. exec r (drop 4 (js ''git pull'')) \<noteq> None) \<and>
   parse (defaults\<lparr>rawStr := Some (js ''git pull''), method' := Some (js ''fetch''),
       options := Some (js ''origin'')\<rparr>) =
     (Some (Error (js ''No option map for fetch'')),
      defaults\<lparr>rawStr := Some (js ''git pull''), method' := Some (js ''fetch''),
        options := Some (js ''origin'')\<rparr>) \<and>
   parseOrCatch (defaults\<lparr>rawStr := Some (js ''git pull''), method' := Some (js ''fetch''),
       options := Some (js ''origin'')\<rparr>) =
     (Some (Error (js ''No option map for fetch'')),
      defaults\<lparr>rawStr := Some (js ''git pull''), method' := Some (js ''fetch''),
        options := Some (js ''origin'')\<rparr>) \<and>
   initialize (defaults\<lparr>rawStr := Some (js ''git pull''), method' := Some (js ''fetch''),
       options := Some (js ''origin'')\<rparr>) =
     (Some (Error (js ''No option map for fetch'')),
      defaults\<lparr>rawStr := Some (js ''git pull''), method' := Some (js ''fetch''),
        options := Some (js ''origin'')\<rparr>) \<and>
   initialize (defaults\<lparr>rawStr := Some (js ''git reset --hard'')\<rparr>) =
     (None, defaults\<lparr>rawStr := Some (js ''git reset --hard''), options := Some (js ''--hard''),
        method' := Some (js ''reset''), generalArgs := [],
        supportedMap := [(js ''--hard'', Args []), (js ''--soft'', JsFalse)]\<rparr>) \<and>
   error (defaults\<lparr>rawStr := Some (js ''git reset --hard''), options := Some (js ''--hard''),
        method' := Some (js ''reset''), generalArgs := [],
        supportedMap := [(js ''--hard'', Args []), (js ''--soft'', JsFalse)]\<rparr>) \<noteq>
     Some (Error (js ''No option map for reset''))"
proof -
  note t1 = C9_option_map_total [THEN conjunct2]
  note t2 = t1 [THEN conjunct2]
  note t3 = t2 [THEN conjunct2]
  note t4 = t3 [THEN conjunct2]
  note t5 = t4 [THEN conjunct2]
  note t6 = t5 [THEN conjunct2]
  note t7 = t6 [THEN conjunct2]
  note t8 = t7 [THEN conjunct2]
  note t9 = t8 [THEN conjunct2]
  note t10 = t9 [THEN conjunct2]
  note table = C9_option_map_total [THEN conjunct1]
  note never = t1 [THEN conjunct1]
  note constructs = t2 [THEN conjunct1]
  note only = t3 [THEN conjunct1]
  note passes = t4 [THEN conjunct1]
  note leaves = t7 [THEN conjunct1]
  note unmapped = t9 [THEN conjunct1]
  note hidden = t10 [THEN conjunct1]
  have h1: "js ''reset'' \<in> fst ` set getRegexMap"
    by code_simp
  from table h1 have c1: "map_of getMasterOptionMap (js ''reset'') \<noteq> None"
    by blast
  from never h1 have c2: "OptionParser (js ''reset'') (js ''--hard'') \<noteq>
      Inl (Error (js ''No option map for reset''))"
    by blast
  have h2: "js ''git reset --hard'' \<noteq> []"
    by (simp add: js_def)
  let ?r = "defaults\<lparr>rawStr := Some (js ''git reset --hard''), options := Some (js ''--hard''),
        method' := Some (js ''reset''), generalArgs := [],
        supportedMap := [(js ''--hard'', Args []), (js ''--soft'', JsFalse)]\<rparr>"
  have h6: "initialize (defaults\<lparr>rawStr := Some (js ''git reset --hard'')\<rparr>) = (None, ?r)"
    by code_simp
  have h7: "error (defaults\<lparr>rawStr := Some (js ''git reset --hard'')\<rparr>) = None"
    by (simp add: defaults_def)
  from hidden h6 h7 have c6: "error ?r \<noteq> Some (Error (js ''No option map for reset''))"
    by blast
  from constructs h2 obtain c where new: "newCommand (js ''git reset --hard'') = (None, c)"
    by blast
  with h6 have "c = ?r"
    by (simp add: newCommand_def)
  then have "error c = None"
    by (simp add: defaults_def)
  with new have c3: "\<exists>c. newCommand (js ''git reset --hard'') = (None, c) \<and> error c = None"
    by blast
  have h3: "OptionParser (js ''fetch'') (js ''origin'') =
      Inl (Error (js ''No option map for fetch''))"
    by code_simp
  from only h3 have c4: "map_of getMasterOptionMap (js ''fetch'') = None"
    by blast
  have h4: "js ''fetch'' \<noteq> []"
    by (simp add: js_def)
  let ?c = "defaults\<lparr>method' := Some (js ''fetch''), options := Some (js ''origin'')\<rparr>"
  have h5: "method' ?c = Some (js ''fetch'')" "options ?c = Some (js ''origin'')"
    by simp_all
  from passes h3 h4 h5 have c5: "parseOffOptions (js ''fetch origin'') ?c =
     (Some (Error (js ''No option map for fetch'')), ?c)"
    by blast
  let ?p = "defaults\<lparr>rawStr := Some (js ''git pull''), method' := Some (js ''fetch''),
       options := Some (js ''origin'')\<rparr>"
  have p1: "rawStr ?p = Some (js ''git pull'')" "method' ?p = Some (js ''fetch'')"
    "options ?p = Some (js ''origin'')"
    by simp_all
  have p2: "take 3 (js ''git pull'') = js ''git''" "js ''git pull'' \<noteq> js ''git''"
    by (simp_all add: js_def)
  have p3: "\<forall>(m', r) \<in> set getRegexMap. exec r (drop 4 (js ''git pull'')) = None"
    by code_simp
  from p1 p2 p3 h4 h3
  have pre: "rawStr ?p = Some (js ''git pull'') \<and> take 3 (js ''git pull'') = js ''git'' \<and>
      js ''git pull'' \<noteq> js ''git'' \<and>
      (\<forall>(m', r) \<in> set getRegexMap. exec r (drop 4 (js ''git pull'')) = None) \<and>
      method' ?p = Some (js ''fetch'') \<and> js ''fetch'' \<noteq> [] \<and>
      options ?p = Some (js ''origin'') \<and>
      OptionParser (js ''fetch'') (js ''origin'') = Inl (Error (js ''No option map for fetch''))"
    by (intro conjI)
  have c7: "initialize ?p = (Some (Error (js ''No option map for fetch'')), ?p)"
    by (rule unmapped [rule_format, OF pre])
  have p4: "parse ?p = (Some (Error (js ''No option map for fetch'')), ?p)"
    by code_simp
  from leaves p4 have c8: "parseOrCatch ?p = (Some (Error (js ''No option map for fetch'')), ?p)"
    by blast
  from p3 have p3': "\<not> (\<exists>(m', r) \<in> set getRegexMap. exec r (drop 4 (js ''git pull'')) \<noteq> None)"
    by (simp only: split_def bex_simps ball_simps not_not)
  from h1 c1 c2 h2 c3 h3 c4 h4 c5 p1(1) p2 p3' p4 c8 c7 h6 c6 show ?thesis
    by (intro conjI)
qed

section \<open>The first four characters\<close>

text \<open>
  C10. Let the line start with \<^verbatim>\<open>git\<close>, be longer than that, and have a fourth character
  that is not a space. Then the constructor returns a command whose error is not the one
  of the test for \<^verbatim>\<open>git\<close>, and \<^verbatim>\<open>parse\<close> resolves the method on the line without its
  first four characters. \<^verbatim>\<open>gitcommit\<close> gives the error for the attempted text
  \<^verbatim>\<open>ommit\<close>.
\<close>

theorem C10_git_without_separator:
  assumes "take 3 raw = js ''git''" and "raw \<noteq> js ''git''" and "raw ! 3 \<noteq> 0x20"
  shows "(\<exists>c. newCommand raw = (None, c) \<and> error c \<noteq> Some UnsupportedTopLevel) \<and>
    parse (defaults\<lparr>rawStr := Some raw\<rparr>) =
      parseOffOptions (drop 4 raw)
        (eachRegex getRegexMap (drop 4 raw) (defaults\<lparr>rawStr := Some raw\<rparr>)) \<and>
    newCommand (js ''gitcommit'') =
      (None, defaults\<lparr>rawStr := Some (js ''gitcommit''),
         error := Some (UnsupportedMethod (js ''ommit''))\<rparr>)"
proof -
  let ?c = "defaults\<lparr>rawStr := Some raw\<rparr>"
  have fresh: "rawStr ?c = Some raw" "method' ?c = None" "error ?c = None"
    by (simp_all add: defaults_def)
  from assms(1) have nonempty: "raw \<noteq> []"
    by (auto simp: js_def)
  have p: "parse ?c = gitParse raw ?c"
    using fresh(1) assms(1,2) by (rule parse_git)
  have "length (js ''git '') = 4" by (simp add: js_def)
  with p have resolved: "parse ?c = parseOffOptions (drop 4 raw) (eachRegex getRegexMap (drop 4 raw) ?c)"
    by (simp add: gitParse_def Let_def)
  have new: "newCommand raw = parseOrCatch ?c"
    using nonempty by (simp add: newCommand_def initialize_def validateAtInit_def)
  from gitParse_outcome [OF fresh(2), of raw]
  have "\<exists>c. parseOrCatch ?c = (None, c) \<and> error c \<noteq> Some UnsupportedTopLevel"
  proof (elim disjE exE conjE)
    fix c'
    assume "gitParse raw ?c = (None, c')" "error c' = error ?c"
    with p fresh(3) show ?thesis by (simp add: parseOrCatch_def)
  next
    assume "gitParse raw ?c = (Some (UnsupportedMethod (drop 4 raw)), ?c)"
    with p thrown_distinct(1) [of "drop 4 raw"] show ?thesis
      by (simp add: parseOrCatch_def UnsupportedMethod_def)
  next
    fix tok c'
    assume "gitParse raw ?c = (Some (UnsupportedOption tok), c')"
    with p thrown_distinct(2) [of tok] show ?thesis
      by (simp add: parseOrCatch_def UnsupportedOption_def)
  qed
  with new have outcome: "\<exists>c. newCommand raw = (None, c) \<and> error c \<noteq> Some UnsupportedTopLevel"
    by simp
  have example: "newCommand (js ''gitcommit'') =
      (None, defaults\<lparr>rawStr := Some (js ''gitcommit''),
         error := Some (UnsupportedMethod (js ''ommit''))\<rparr>)"
    by code_simp
  from outcome resolved example show ?thesis
    by (intro conjI)
qed

text \<open>The theorem at \<^verbatim>\<open>git-commit\<close>.\<close>

theorem C10_git_without_separator_witness:
  "take 3 (js ''git-commit'') = js ''git'' \<and> js ''git-commit'' \<noteq> js ''git'' \<and>
   js ''git-commit'' ! 3 \<noteq> 0x20 \<and>
   (\<exists>c. newCommand (js ''git-commit'') = (None, c) \<and> error c \<noteq> Some UnsupportedTopLevel) \<and>
   parse (defaults\<lparr>rawStr := Some (js ''git-commit'')\<rparr>) =
     parseOffOptions (drop 4 (js ''git-commit''))
       (eachRegex getRegexMap (drop 4 (js ''git-commit''))
          (defaults\<lparr>rawStr := Some (js ''git-commit'')\<rparr>))"
proof -
  have h1: "take 3 (js ''git-commit'') = js ''git''"
    by (simp add: js_def)
  have h2: "js ''git-commit'' \<noteq> js ''git''"
    by (simp add: js_def)
  have h3: "js ''git-commit'' ! 3 \<noteq> 0x20"
    by (simp add: js_def)
  note concl = C10_git_without_separator [OF h1 h2 h3]
  from concl have c1: "\<exists>c. newCommand (js ''git-commit'') = (None, c) \<and>
      error c \<noteq> Some UnsupportedTopLevel"
    by (rule conjunct1)
  from concl have c2: "parse (defaults\<lparr>rawStr := Some (js ''git-commit'')\<rparr>) =
     parseOffOptions (drop 4 (js ''git-commit''))
       (eachRegex getRegexMap (drop 4 (js ''git-commit''))
          (defaults\<lparr>rawStr := Some (js ''git-commit'')\<rparr>))"
    by (elim conjE)
  from h1 h2 h3 c1 c2 show ?thesis
    by (intro conjI)
qed

end
